theory Spec2Isabelle
  imports Complex_Main "HOL-Library.Log_Nat"
begin

section \<open>HTTP responses\<close>

text \<open>
  Every handler of the server ends in \<^verbatim>\<open>res.status(n).json({...})\<close> or
  \<^verbatim>\<open>res.json({...})\<close> (status 200). The JSON error texts of the source are
  French sentences; they are kept apart here by one constructor per distinct text.
\<close>

datatype error_msg =
    Validation_errors            \<comment> \<open>the joined express-validator messages\<close>
  | En_tete_manquant             \<comment> \<open>X-Device-Id header missing\<close>
  | Requete_invalide             \<comment> \<open>honeypot filled\<close>
  | Trop_de_requetes             \<comment> \<open>idea cooldown\<close>
  | Sondage_introuvable
  | Option_invalide
  | Vote_deja_enregistre
  | Push_non_configure
  | Hash_non_configure
  | Identifiants_invalides
  | Non_authentifie
  | Acces_refuse
  | Session_expiree

datatype body =
    Ok_true                                \<comment> \<open>\<^verbatim>\<open>{ ok: true }\<close>\<close>
  | Error error_msg                        \<comment> \<open>\<^verbatim>\<open>{ error: ... }\<close>\<close>
  | Error_retry error_msg int              \<comment> \<open>\<^verbatim>\<open>{ error: ..., retry_after_sec: n }\<close>\<close>
  | Push_report nat nat bool               \<comment> \<open>\<^verbatim>\<open>{ ok: true, sent, failed, disabled }\<close>\<close>

datatype response = Response (status: nat) (json: body)

section \<open>The SQLite tables\<close>

text \<open>
  Timestamps are the milliseconds of \<^verbatim>\<open>Date.now()\<close>: \<^verbatim>\<open>nowIso()\<close> writes them as an ISO
  string with millisecond precision and \<^verbatim>\<open>Date.parse\<close> reads the same number back.
  \<^verbatim>\<open>options_json\<close> is \<^verbatim>\<open>JSON.stringify\<close> of a list of strings and is only ever read
  through \<^verbatim>\<open>JSON.parse\<close>, so the column holds the list. \<^verbatim>\<open>active\<close> only ever holds 0 or 1.
  A handler that reads the clock more than once is given one reading, \<open>now\<close>.
\<close>

record idea =
  idea_id :: int
  idea_text :: string
  idea_category :: string
  idea_urgency :: string
  idea_status :: string
  idea_device_hash :: string
  idea_created_at :: int

record poll =
  poll_id :: int
  poll_question :: string
  poll_options :: "string list"
  poll_active :: bool
  poll_created_at :: int

record poll_vote =
  vote_id :: int
  vote_poll_id :: int
  vote_option_index :: int
  vote_voter_hash :: string
  vote_created_at :: int

record push_subscription =
  ps_endpoint :: string
  ps_subscription_json :: string
  ps_device_hash :: string
  ps_user_agent :: string
  ps_created_at :: int
  ps_updated_at :: int

record database =
  ideas :: "idea list"
  polls :: "poll list"
  poll_votes :: "poll_vote list"
  push_subscriptions :: "push_subscription list"

text \<open>
  \<^verbatim>\<open>INTEGER PRIMARY KEY AUTOINCREMENT\<close>: one more than the largest id. No statement of the
  server deletes from these three tables, so this is also the largest id ever used.
\<close>

definition next_id :: "int list \<Rightarrow> int" where
  "next_id ids = fold max ids 0 + 1"

datatype db_error = SQLITE_CONSTRAINT | SQLITE_OTHER

section \<open>Values of a JSON request body\<close>

text \<open>
  A numeric field of the body is the number it denotes, \<open>None\<close> when it denotes none
  (missing, null, a non-numeric string): there \<^verbatim>\<open>Number(...)\<close> is NaN. Numbers are
  rationals; floating-point rounding is not modelled. A field that should hold a string is
  absent, some other JSON value, or a string (ASCII here).
\<close>

datatype str_field = Absent | Not_a_string | Str string

definition is_integer :: "rat \<Rightarrow> bool" where
  "is_integer r \<longleftrightarrow> of_int \<lfloor>r\<rfloor> = r"

text \<open>\<^verbatim>\<open>body(f).isInt({ min, max })\<close> of express-validator.\<close>

definition isInt :: "int \<Rightarrow> int \<Rightarrow> rat option \<Rightarrow> bool" where
  "isInt lo hi v =
     (case v of None \<Rightarrow> False
      | Some r \<Rightarrow> is_integer r \<and> of_int lo \<le> r \<and> r \<le> of_int hi)"

text \<open>\<^verbatim>\<open>body(f).isString().isLength({ min, max })\<close>.\<close>

definition isString_isLength :: "nat \<Rightarrow> nat \<Rightarrow> str_field \<Rightarrow> bool" where
  "isString_isLength lo hi v =
     (case v of Str s \<Rightarrow> lo \<le> length s \<and> length s \<le> hi | _ \<Rightarrow> False)"

text \<open>\<^verbatim>\<open>body(f).optional().isString().isLength({ max })\<close>: skipped when the field is undefined.\<close>

definition optional_isString_isLength :: "nat \<Rightarrow> str_field \<Rightarrow> bool" where
  "optional_isString_isLength hi v =
     (case v of Absent \<Rightarrow> True | Not_a_string \<Rightarrow> False | Str s \<Rightarrow> length s \<le> hi)"

text \<open>\<^verbatim>\<open>body(f).isIn([...])\<close>.\<close>

definition isIn :: "string list \<Rightarrow> str_field \<Rightarrow> bool" where
  "isIn allowed v = (case v of Str s \<Rightarrow> s \<in> set allowed | _ \<Rightarrow> False)"

section \<open>POST /api/public/poll/:id/vote\<close>

text \<open>
  \<open>vote_params_id\<close> is \<^verbatim>\<open>Number(req.params.id)\<close>: the integer it denotes, \<open>None\<close> when it
  is NaN or fractional (no row of an INTEGER PRIMARY KEY equals it).
  \<open>vote_deviceHash\<close> is \<^verbatim>\<open>req.deviceHash\<close>, set by the X-Device-Id middleware.
\<close>

record vote_request =
  vote_params_id :: "int option"
  vote_optionIndex :: "rat option"
  vote_deviceHash :: string

text \<open>\<^verbatim>\<open>get(`SELECT id, options_json, active FROM poll WHERE id = ?`, [pollId])\<close>\<close>

definition get_poll :: "poll list \<Rightarrow> int option \<Rightarrow> poll option" where
  "get_poll ps pollId =
     (case pollId of None \<Rightarrow> None | Some i \<Rightarrow> find (\<lambda>p. poll_id p = i) ps)"

text \<open>
  \<^verbatim>\<open>INSERT INTO poll_votes(poll_id, option_index, voter_hash, created_at) VALUES(?, ?, ?, ?)\<close>
  under the table's \<^verbatim>\<open>UNIQUE(poll_id, voter_hash)\<close> and
  \<^verbatim>\<open>FOREIGN KEY(poll_id) REFERENCES poll(id)\<close>. \<open>fault\<close> stands for every other
  reason SQLite can refuse a statement (busy, read-only or full database, I/O error);
  \<^verbatim>\<open>run\<close> rejects its promise on any of them.
\<close>

definition has_voted :: "poll_vote list \<Rightarrow> int \<Rightarrow> string \<Rightarrow> bool" where
  "has_voted vs pid voter =
     list_ex (\<lambda>v. vote_poll_id v = pid \<and> vote_voter_hash v = voter) vs"

definition insert_poll_vote ::
  "bool \<Rightarrow> database \<Rightarrow> int \<Rightarrow> int \<Rightarrow> string \<Rightarrow> int \<Rightarrow> db_error + database" where
  "insert_poll_vote fault db pid idx voter now =
     (if fault then Inl SQLITE_OTHER
      else if has_voted (poll_votes db) pid voter then Inl SQLITE_CONSTRAINT
      else if \<not> list_ex (\<lambda>p. poll_id p = pid) (polls db) then Inl SQLITE_CONSTRAINT
      else Inr (db\<lparr>poll_votes := poll_votes db @
             [\<lparr>vote_id = next_id (map vote_id (poll_votes db)), vote_poll_id = pid,
               vote_option_index = idx, vote_voter_hash = voter,
               vote_created_at = now\<rparr>]\<rparr>))"

definition vote_handler ::
  "bool \<Rightarrow> int \<Rightarrow> vote_request \<Rightarrow> database \<Rightarrow> response \<times> database" where
  "vote_handler fault now req db =
     (if \<not> isInt 0 50 (vote_optionIndex req) then (Response 400 (Error Validation_errors), db)
      else
        case get_poll (polls db) (vote_params_id req) of
          None \<Rightarrow> (Response 404 (Error Sondage_introuvable), db)
        | Some p \<Rightarrow>
            if \<not> poll_active p then (Response 404 (Error Sondage_introuvable), db)
            else
              (case vote_optionIndex req of
                 None \<Rightarrow> (Response 400 (Error Option_invalide), db)
               | Some idx \<Rightarrow>
                   if \<not> is_integer idx \<or> idx < 0 \<or> idx \<ge> of_nat (length (poll_options p))
                   then (Response 400 (Error Option_invalide), db)
                   else
                     (case insert_poll_vote fault db (poll_id p) \<lfloor>idx\<rfloor>
                             (vote_deviceHash req) now of
                        Inl e \<Rightarrow> (Response 409 (Error Vote_deja_enregistre), db)
                      | Inr db' \<Rightarrow> (Response 200 Ok_true, db'))))"

text \<open>The table constraint \<^verbatim>\<open>UNIQUE(poll_id, voter_hash)\<close> as a predicate on the rows.\<close>

definition unique_votes :: "poll_vote list \<Rightarrow> bool" where
  "unique_votes vs = distinct (map (\<lambda>v. (vote_poll_id v, vote_voter_hash v)) vs)"

section \<open>Configuration\<close>

text \<open>
  The values read from \<^verbatim>\<open>process.env\<close> at startup. \<open>IDEA_COOLDOWN_SEC\<close> is the number
  written in the environment (60 when there is none); \<^verbatim>\<open>Number(...)\<close> makes it the nearest
  double. A value that is not a number (NaN) is not modelled.
\<close>

record config =
  IDEA_COOLDOWN_SEC :: rat
  ADMIN_PASSWORD_HASH :: string
  COOKIE_NAME :: string
  VAPID_PUBLIC_KEY :: string
  VAPID_PRIVATE_KEY :: string
  VAPID_SUBJECT :: string
  NODE_ENV_production :: bool

section \<open>JavaScript numbers\<close>

text \<open>
  A JavaScript number is a double. The finite doubles are rationals, and every arithmetic
  operation returns the double nearest to the exact result, ties going to the even
  significand. \<open>exponent x\<close> is the \<open>e\<close> with \<open>2 ^ e \<le> \<bar>x\<bar> < 2 ^ (e + 1)\<close>; a double has 53
  significant bits, so doubles near \<open>x\<close> are \<open>2 ^ (e - 52)\<close> apart. Overflow and
  subnormal numbers are not modelled: the numbers of the server are far from both.
\<close>

definition exponent :: "rat \<Rightarrow> int" where
  "exponent x =
     (case quotient_of \<bar>x\<bar> of (p, q) \<Rightarrow>
        (let k = bitlen p - bitlen q in if 2 powi k \<le> \<bar>x\<bar> then k else k - 1))"

definition round_half_even :: "rat \<Rightarrow> int" where
  "round_half_even y =
     (let f = \<lfloor>y\<rfloor>; r = y - of_int f
      in if r < 1 / 2 then f else if 1 / 2 < r then f + 1 else if even f then f else f + 1)"

definition round_double :: "rat \<Rightarrow> rat" where
  "round_double x =
     (if x = 0 then 0
      else (let ulp = 2 powi (exponent x - 52) in of_int (round_half_even (x / ulp)) * ulp))"

section \<open>Text helpers\<close>

text \<open>\<^verbatim>\<open>String.prototype.trim\<close> on ASCII text.\<close>

definition js_space :: "char \<Rightarrow> bool" where
  "js_space c \<longleftrightarrow> c \<in> set [CHR 0x20, CHR 0x09, CHR 0x0A, CHR 0x0B, CHR 0x0C, CHR 0x0D]"

definition js_trim :: "string \<Rightarrow> string" where
  "js_trim s = rev (dropWhile js_space (rev (dropWhile js_space s)))"

text \<open>
  \<^verbatim>\<open>cleanText(str, maxLen)\<close>. The library call \<^verbatim>\<open>sanitizeHtml(..., { allowedTags: [] })\<close>
  is the parameter \<open>sanitizeHtml\<close>.
\<close>

definition cleanText :: "(string \<Rightarrow> string) \<Rightarrow> string \<Rightarrow> nat \<Rightarrow> string" where
  "cleanText sanitizeHtml str maxLen =
     (let cleaned = js_trim (sanitizeHtml str)
      in if maxLen \<noteq> 0 \<and> length cleaned > maxLen then take maxLen cleaned else cleaned)"

text \<open>
  \<^verbatim>\<open>requireAdmin\<close>. The cookie is absent, or \<^verbatim>\<open>jwt.verify\<close> throws on it (bad signature,
  expired), or it verifies to a payload whose \<^verbatim>\<open>admin\<close> claim is truthy or not.
\<close>

datatype jwt_verify = Throws | Payload (admin: bool)

definition requireAdmin :: "jwt_verify option \<Rightarrow> response option" where
  "requireAdmin token =
     (case token of
        None \<Rightarrow> Some (Response 401 (Error Non_authentifie))
      | Some Throws \<Rightarrow> Some (Response 401 (Error Session_expiree))
      | Some (Payload a) \<Rightarrow> if \<not> a then Some (Response 403 (Error Acces_refuse)) else None)"

section \<open>The X-Device-Id middleware\<close>

text \<open>
  \<^verbatim>\<open>app.use("/api", ...)\<close>: \<open>Inl\<close> answers the request, \<open>Inr h\<close> sets
  \<^verbatim>\<open>req.deviceHash = h\<close> and calls \<^verbatim>\<open>next()\<close>. \<open>sha256\<close> is the library call
  \<^verbatim>\<open>crypto.createHash("sha256").update(String(input)).digest("hex")\<close>.
\<close>

definition device_id_middleware :: "(string \<Rightarrow> string) \<Rightarrow> string option \<Rightarrow> response + string" where
  "device_id_middleware sha256 header =
     (let deviceId = (case header of None \<Rightarrow> [] | Some h \<Rightarrow> h)
      in if deviceId = [] \<or> length deviceId < 8 \<or> length deviceId > 200
         then Inl (Response 400 (Error En_tete_manquant))
         else Inr (sha256 deviceId))"

section \<open>POST /api/public/ideas\<close>

record idea_request =
  req_text :: str_field
  req_category :: str_field
  req_urgency :: str_field
  req_hp :: str_field
  req_deviceHash :: string

definition idea_validation :: "idea_request \<Rightarrow> bool" where
  "idea_validation req \<longleftrightarrow>
     isString_isLength 10 500 (req_text req) \<and>
     isIn [''vie-scolaire'', ''cantine'', ''ecologie'', ''clubs-evenements'', ''materiel'', ''autre'']
       (req_category req) \<and>
     isIn [''basse'', ''moyenne'', ''haute''] (req_urgency req) \<and>
     optional_isString_isLength 5 (req_hp req)"

text \<open>
  \<^verbatim>\<open>(req.body.hp || "")\<close>. Validation has refused every value that is not a string
  before this is evaluated.
\<close>

definition or_empty :: "str_field \<Rightarrow> string" where
  "or_empty v = (case v of Str s \<Rightarrow> s | _ \<Rightarrow> [])"

text \<open>\<^verbatim>\<open>SELECT created_at FROM ideas WHERE device_hash = ? ORDER BY id DESC LIMIT 1\<close>\<close>

definition newer :: "idea \<Rightarrow> idea option \<Rightarrow> idea option" where
  "newer i acc =
     (case acc of None \<Rightarrow> Some i
      | Some j \<Rightarrow> if idea_id j < idea_id i then Some i else Some j)"

definition last_idea :: "idea list \<Rightarrow> string \<Rightarrow> idea option" where
  "last_idea rows h = fold newer (filter (\<lambda>i. idea_device_hash i = h) rows) None"

text \<open>
  The cooldown block: \<open>Some remaining\<close> when the handler answers 429. \<open>now\<close> is
  \<^verbatim>\<open>Date.now()\<close>. The test \<^verbatim>\<open>last?.created_at\<close> holds for every row: the column is
  NOT NULL and always written by \<^verbatim>\<open>nowIso()\<close>. The three operations of
  \<^verbatim>\<open>(Date.now() - Date.parse(last.created_at)) / 1000\<close> and
  \<^verbatim>\<open>IDEA_COOLDOWN_SEC - diff\<close> are each rounded to a double; \<^verbatim>\<open>Math.ceil\<close> of a double is
  exact. \<open>cooldown\<close> is the double held by the constant \<^verbatim>\<open>IDEA_COOLDOWN_SEC\<close>.
\<close>

definition cooldown_remaining :: "rat \<Rightarrow> int \<Rightarrow> idea option \<Rightarrow> int option" where
  "cooldown_remaining cooldown now last_row =
     (case last_row of
        None \<Rightarrow> None
      | Some l \<Rightarrow>
          (let diff = round_double (round_double (of_int (now - idea_created_at l)) / 1000);
               remaining = \<lceil>round_double (cooldown - diff)\<rceil>
           in if remaining > 0 then Some remaining else None))"

definition insert_idea :: "string \<Rightarrow> string \<Rightarrow> string \<Rightarrow> string \<Rightarrow> int \<Rightarrow> database \<Rightarrow> database" where
  "insert_idea txt category urgency h now db =
     db\<lparr>ideas := ideas db @
        [\<lparr>idea_id = next_id (map idea_id (ideas db)), idea_text = txt,
          idea_category = category, idea_urgency = urgency, idea_status = ''nouveau'',
          idea_device_hash = h, idea_created_at = now\<rparr>]\<rparr>"

definition ideas_handler ::
  "config \<Rightarrow> (string \<Rightarrow> string) \<Rightarrow> int \<Rightarrow> idea_request \<Rightarrow> database \<Rightarrow> response \<times> database" where
  "ideas_handler cfg sanitizeHtml now req db =
     (if \<not> idea_validation req then (Response 400 (Error Validation_errors), db)
      else if js_trim (or_empty (req_hp req)) \<noteq> [] then (Response 400 (Error Requete_invalide), db)
      else
        case cooldown_remaining (round_double (IDEA_COOLDOWN_SEC cfg)) now
               (last_idea (ideas db) (req_deviceHash req)) of
          Some remaining \<Rightarrow> (Response 429 (Error_retry Trop_de_requetes remaining), db)
        | None \<Rightarrow>
            (Response 200 Ok_true,
             insert_idea (cleanText sanitizeHtml (or_empty (req_text req)) 500)
               (or_empty (req_category req)) (or_empty (req_urgency req))
               (req_deviceHash req) now db))"

section \<open>Push notifications\<close>

record subscription =
  sub_endpoint :: string
  sub_p256dh :: string
  sub_auth :: string

record payload =
  pl_title :: string
  pl_body :: string
  pl_url :: string
  pl_tag :: string
  pl_ts :: int

text \<open>
  What \<^verbatim>\<open>webpush.sendNotification\<close> does with one subscription: it resolves, or it
  rejects with an error whose \<^verbatim>\<open>statusCode\<close> is a number or undefined.
\<close>

datatype send_outcome = Delivered | Rejected "nat option"

text \<open>
  The world outside the server during one dispatch: whether \<^verbatim>\<open>import("web-push")\<close>
  succeeds, whether \<^verbatim>\<open>webpush.setVapidDetails(subject, publicKey, privateKey)\<close> throws (the
  library refuses a subject or a key that is not well formed), \<^verbatim>\<open>JSON.parse\<close> (\<open>None\<close>
  when it throws), the push service's answer for a subscription, and whether the DELETE of
  an endpoint fails.
\<close>

record push_env =
  webpush_module :: bool
  setVapidDetails_throws :: "string \<Rightarrow> string \<Rightarrow> string \<Rightarrow> bool"
  JSON_parse :: "string \<Rightarrow> subscription option"
  sendNotification :: "subscription \<Rightarrow> payload \<Rightarrow> send_outcome"
  delete_fails :: "string \<Rightarrow> bool"

text \<open>What a dispatch does to the outside world, in order.\<close>

datatype effect =
    Select_subscriptions
  | Send_notification subscription payload
  | Delete_subscription string

datatype disabled_reason = missing_vapid | missing_webpush_module

record push_result =
  sent :: nat
  failed :: nat
  disabled :: bool
  reason :: "disabled_reason option"

definition canUsePushConfig :: "config \<Rightarrow> bool" where
  "canUsePushConfig cfg \<longleftrightarrow> VAPID_PUBLIC_KEY cfg \<noteq> [] \<and> VAPID_PRIVATE_KEY cfg \<noteq> []"

text \<open>
  An exception that leaves an \<^verbatim>\<open>async\<close> function rejects its promise. No handler of the
  server catches it: a handler that ends this way has sent no response itself.
\<close>

datatype exception = VAPID_details_rejected

text \<open>
  \<^verbatim>\<open>initWebPushIfConfigured\<close>: whether it returns the module or null. The call of
  \<^verbatim>\<open>setVapidDetails\<close> is inside no \<^verbatim>\<open>try\<close>, so what it throws leaves the function.
\<close>

definition initWebPushIfConfigured :: "config \<Rightarrow> push_env \<Rightarrow> exception + bool" where
  "initWebPushIfConfigured cfg env =
     (if \<not> canUsePushConfig cfg then Inr False
      else if \<not> webpush_module env then Inr False
      else if setVapidDetails_throws env (VAPID_SUBJECT cfg) (VAPID_PUBLIC_KEY cfg)
                (VAPID_PRIVATE_KEY cfg)
      then Inl VAPID_details_rejected
      else Inr True)"

text \<open>\<^verbatim>\<open>DELETE FROM push_subscriptions WHERE endpoint = ?\<close>, inside \<^verbatim>\<open>try { } catch (_) {}\<close>.\<close>

definition delete_subscription :: "push_env \<Rightarrow> string \<Rightarrow> database \<Rightarrow> database" where
  "delete_subscription env e db =
     (if delete_fails env e then db
      else db\<lparr>push_subscriptions := filter (\<lambda>r. ps_endpoint r \<noteq> e) (push_subscriptions db)\<rparr>)"

text \<open>
  The body of \<^verbatim>\<open>for (const s of subs)\<close>, on the state
  (database, sent, failed, effects so far). A throw of \<^verbatim>\<open>JSON.parse\<close> lands in the same
  \<^verbatim>\<open>catch\<close>, with no \<^verbatim>\<open>statusCode\<close>.
\<close>

type_synonym push_state = "database \<times> nat \<times> nat \<times> effect list"

fun push_one :: "push_env \<Rightarrow> payload \<Rightarrow> push_subscription \<Rightarrow> push_state \<Rightarrow> push_state" where
  "push_one env pl s (db, n_sent, n_failed, effs) =
     (case JSON_parse env (ps_subscription_json s) of
        None \<Rightarrow> (db, n_sent, n_failed + 1, effs)
      | Some sub \<Rightarrow>
          (case sendNotification env sub pl of
             Delivered \<Rightarrow> (db, n_sent + 1, n_failed, effs @ [Send_notification sub pl])
           | Rejected st \<Rightarrow>
               if st = Some 404 \<or> st = Some 410
               then (delete_subscription env (ps_endpoint s) db, n_sent, n_failed + 1,
                     effs @ [Send_notification sub pl, Delete_subscription (ps_endpoint s)])
               else (db, n_sent, n_failed + 1, effs @ [Send_notification sub pl])))"

fun push_loop :: "push_env \<Rightarrow> payload \<Rightarrow> push_subscription list \<Rightarrow> push_state \<Rightarrow> push_state" where
  "push_loop env pl [] st = st"
| "push_loop env pl (s # subs) st = push_loop env pl subs (push_one env pl s st)"

text \<open>
  \<^verbatim>\<open>sendPushToAll\<close> returns its result (\<open>Inr\<close>) or ends in an exception (\<open>Inl\<close>); in both
  cases the database as it leaves it and what it did are given.
\<close>

definition sendPushToAll ::
  "config \<Rightarrow> push_env \<Rightarrow> payload \<Rightarrow> database \<Rightarrow>
     (exception + push_result) \<times> database \<times> effect list" where
  "sendPushToAll cfg env pl db =
     (if \<not> canUsePushConfig cfg
      then (Inr \<lparr>sent = 0, failed = 0, disabled = True, reason = Some missing_vapid\<rparr>, db, [])
      else
        case initWebPushIfConfigured cfg env of
          Inl e \<Rightarrow> (Inl e, db, [])
        | Inr webpush \<Rightarrow>
            if \<not> webpush
            then (Inr \<lparr>sent = 0, failed = 0, disabled = True,
                       reason = Some missing_webpush_module\<rparr>, db, [])
            else
              (let subs = push_subscriptions db;
                   (db', n_sent, n_failed, effs) =
                      push_loop env pl subs (db, 0, 0, [Select_subscriptions])
               in (Inr \<lparr>sent = n_sent, failed = n_failed, disabled = False, reason = None\<rparr>,
                   db', effs)))"

subsection \<open>POST /api/push/send\<close>

record push_send_request =
  req_title :: str_field
  req_body :: str_field
  req_url :: str_field
  req_tag :: str_field

text \<open>\<^verbatim>\<open>optional({ nullable: true })\<close> also skips null; null is not told apart from absent here.\<close>

definition push_send_validation :: "push_send_request \<Rightarrow> bool" where
  "push_send_validation req \<longleftrightarrow>
     isString_isLength 1 60 (req_title req) \<and>
     isString_isLength 1 180 (req_body req) \<and>
     optional_isString_isLength 300 (req_url req) \<and>
     optional_isString_isLength 60 (req_tag req)"

text \<open>\<^verbatim>\<open>req.body.f ? String(req.body.f).trim() : dflt\<close>\<close>

definition trimmed_or :: "string \<Rightarrow> str_field \<Rightarrow> string" where
  "trimmed_or dflt v = (if or_empty v \<noteq> [] then js_trim (or_empty v) else dflt)"

definition push_send_handler ::
  "config \<Rightarrow> push_env \<Rightarrow> (string \<Rightarrow> string) \<Rightarrow> int \<Rightarrow> jwt_verify option \<Rightarrow> push_send_request \<Rightarrow>
     database \<Rightarrow> (exception + response) \<times> database \<times> effect list" where
  "push_send_handler cfg env sanitizeHtml now token req db =
     (case requireAdmin token of
        Some r \<Rightarrow> (Inr r, db, [])
      | None \<Rightarrow>
          if \<not> push_send_validation req
          then (Inr (Response 400 (Error Validation_errors)), db, [])
          else
            (let pl = \<lparr>pl_title = cleanText sanitizeHtml (or_empty (req_title req)) 60,
                       pl_body = cleanText sanitizeHtml (or_empty (req_body req)) 180,
                       pl_url = trimmed_or ''/'' (req_url req),
                       pl_tag = trimmed_or ''cvl'' (req_tag req),
                       pl_ts = now\<rparr>;
                 (outcome, db', effs) = sendPushToAll cfg env pl db
             in case outcome of
                  Inl e \<Rightarrow> (Inl e, db', effs)
                | Inr result \<Rightarrow>
                    if disabled result
                    then (Inr (Response 501 (Error Push_non_configure)), db', effs)
                    else (Inr (Response 200
                                (Push_report (sent result) (failed result) (disabled result))),
                          db', effs)))"

section \<open>POST /api/admin/poll\<close>

text \<open>\<^verbatim>\<open>UPDATE poll SET active = 0 WHERE active = 1\<close>\<close>

definition deactivate_previous :: "database \<Rightarrow> database" where
  "deactivate_previous db =
     db\<lparr>polls := map (\<lambda>p. if poll_active p then p\<lparr>poll_active := False\<rparr> else p) (polls db)\<rparr>"

text \<open>\<^verbatim>\<open>INSERT INTO poll(question, options_json, active, created_at) VALUES(?, ?, 1, ?)\<close>\<close>

definition insert_poll :: "string \<Rightarrow> string list \<Rightarrow> int \<Rightarrow> database \<Rightarrow> database" where
  "insert_poll question options now db =
     db\<lparr>polls := polls db @
        [\<lparr>poll_id = next_id (map poll_id (polls db)), poll_question = question,
          poll_options = options, poll_active = True, poll_created_at = now\<rparr>]\<rparr>"

text \<open>\<open>req_options\<close> is \<open>None\<close> when \<^verbatim>\<open>req.body.options\<close> is not an array.\<close>

record poll_request =
  req_question :: str_field
  req_options :: "str_field list option"

definition poll_validation :: "poll_request \<Rightarrow> bool" where
  "poll_validation req \<longleftrightarrow>
     isString_isLength 5 140 (req_question req) \<and>
     (case req_options req of
        None \<Rightarrow> False
      | Some os \<Rightarrow> 2 \<le> length os \<and> length os \<le> 8 \<and> list_all (isString_isLength 1 60) os)"

text \<open>
  The handler when nothing else touches the database between its statements. The
  two statements are two separate \<^verbatim>\<open>await run(...)\<close>; the source opens no transaction
  (no BEGIN or COMMIT is issued anywhere in the server). The title of the automatic
  notification is written without its leading pictograph.
\<close>

definition admin_poll_handler ::
  "config \<Rightarrow> push_env \<Rightarrow> (string \<Rightarrow> string) \<Rightarrow> int \<Rightarrow> jwt_verify option \<Rightarrow> poll_request \<Rightarrow>
     database \<Rightarrow> (exception + response) \<times> database \<times> effect list" where
  "admin_poll_handler cfg env sanitizeHtml now token req db =
     (case requireAdmin token of
        Some r \<Rightarrow> (Inr r, db, [])
      | None \<Rightarrow>
          if \<not> poll_validation req
          then (Inr (Response 400 (Error Validation_errors)), db, [])
          else
            (let question = cleanText sanitizeHtml (or_empty (req_question req)) 140;
                 options = map (\<lambda>opt. cleanText sanitizeHtml (or_empty opt) 60)
                             (case req_options req of None \<Rightarrow> [] | Some os \<Rightarrow> os);
                 db1 = deactivate_previous db;
                 db2 = insert_poll question options now db1
             in if canUsePushConfig cfg
                then (let (outcome, db3, effs) =
                            sendPushToAll cfg env
                              \<lparr>pl_title = ''Nouveau sondage'', pl_body = question,
                               pl_url = ''/#sondage'', pl_tag = ''poll'', pl_ts = now\<rparr> db2
                      in case outcome of
                           Inl e \<Rightarrow> (Inl e, db3, effs)
                         | Inr result \<Rightarrow> (Inr (Response 200 Ok_true), db3, effs))
                else (Inr (Response 200 Ok_true), db2, [])))"

subsection \<open>Activations in flight\<close>

text \<open>
  Node runs one handler until its next \<^verbatim>\<open>await\<close> and may then run another. An
  activation that has passed validation is therefore at one of three points, holding its
  local variables \<^verbatim>\<open>question\<close> and \<^verbatim>\<open>options\<close>. Each statement is committed on its own.
\<close>

datatype activation =
    Before_update string "string list"
  | Before_insert string "string list"
  | Statements_done

fun activation_step :: "int \<Rightarrow> activation \<Rightarrow> database \<Rightarrow> activation \<times> database" where
  "activation_step now (Before_update q os) db = (Before_insert q os, deactivate_previous db)"
| "activation_step now (Before_insert q os) db = (Statements_done, insert_poll q os now db)"
| "activation_step now Statements_done db = (Statements_done, db)"

text \<open>The server: the database and the activations in flight. \<open>i\<close> is the one that runs next.\<close>

definition server_step :: "int \<Rightarrow> nat \<Rightarrow> database \<times> activation list \<Rightarrow> database \<times> activation list" where
  "server_step now i srv =
     (case srv of (db, acts) \<Rightarrow>
        if i < length acts
        then (case activation_step now (acts ! i) db of (a, db') \<Rightarrow> (db', acts[i := a]))
        else (db, acts))"

definition run_schedule :: "int \<Rightarrow> nat list \<Rightarrow> database \<times> activation list \<Rightarrow> database \<times> activation list" where
  "run_schedule now sched srv = fold (server_step now) sched srv"

text \<open>What a reader of the poll table can count.\<close>

definition count_active :: "database \<Rightarrow> nat" where
  "count_active db = length (filter poll_active (polls db))"

text \<open>
  Activations one after the other, none started before the previous one has run both
  statements: every database a reader can see on the way, in order.
\<close>

fun sequential_states :: "int \<Rightarrow> (string \<times> string list) list \<Rightarrow> database \<Rightarrow> database list" where
  "sequential_states now [] db = [db]"
| "sequential_states now ((q, os) # rest) db =
     db # deactivate_previous db #
       sequential_states now rest (insert_poll q os now (deactivate_previous db))"

definition empty_database :: database where
  "empty_database = \<lparr>ideas = [], polls = [], poll_votes = [], push_subscriptions = []\<rparr>"

section \<open>POST /api/auth/login\<close>

text \<open>\<^verbatim>\<open>jwt.sign({ admin: true }, JWT_SECRET, { expiresIn: "8h" })\<close> and the cookie it is put in.\<close>

record token =
  tok_admin :: bool
  tok_expires_in_hours :: nat

record cookie =
  ck_name :: string
  ck_value :: token
  ck_httpOnly :: bool
  ck_sameSite :: string
  ck_secure :: bool
  ck_maxAge :: nat

definition signAdminToken :: token where
  "signAdminToken = \<lparr>tok_admin = True, tok_expires_in_hours = 8\<rparr>"

definition setAuthCookie :: "config \<Rightarrow> token \<Rightarrow> cookie" where
  "setAuthCookie cfg t =
     \<lparr>ck_name = COOKIE_NAME cfg, ck_value = t, ck_httpOnly = True, ck_sameSite = ''lax'',
      ck_secure = NODE_ENV_production cfg, ck_maxAge = 8 * 60 * 60 * 1000\<rparr>"

text \<open>
  The handler returns the response and the cookie it set, if any. \<open>bcrypt_compare\<close> is the
  library call \<^verbatim>\<open>bcrypt.compare(password, hash)\<close>.
\<close>

definition login_handler ::
  "config \<Rightarrow> (string \<Rightarrow> string \<Rightarrow> bool) \<Rightarrow> str_field \<Rightarrow> response \<times> cookie option" where
  "login_handler cfg bcrypt_compare password =
     (if \<not> isString_isLength 6 128 password then (Response 400 (Error Validation_errors), None)
      else if ADMIN_PASSWORD_HASH cfg = [] then (Response 500 (Error Hash_non_configure), None)
      else if \<not> bcrypt_compare (or_empty password) (ADMIN_PASSWORD_HASH cfg)
      then (Response 401 (Error Identifiants_invalides), None)
      else (Response 200 Ok_true, Some (setAuthCookie cfg signAdminToken)))"

section \<open>The server as a sequence of requests\<close>

text \<open>
  The requests that write to the database, each with what the outside world does during
  it, and the database after serving a list of them from an empty one. Each handler runs
  to its end before the next starts.
\<close>

datatype request =
    Vote_request bool int vote_request
  | Idea_request int idea_request
  | Poll_request push_env int "jwt_verify option" poll_request
  | Push_request push_env int "jwt_verify option" push_send_request

fun handle :: "config \<Rightarrow> (string \<Rightarrow> string) \<Rightarrow> request \<Rightarrow> database \<Rightarrow> database" where
  "handle cfg sanitizeHtml (Vote_request fault now req) db = snd (vote_handler fault now req db)"
| "handle cfg sanitizeHtml (Idea_request now req) db =
     snd (ideas_handler cfg sanitizeHtml now req db)"
| "handle cfg sanitizeHtml (Poll_request env now token req) db =
     fst (snd (admin_poll_handler cfg env sanitizeHtml now token req db))"
| "handle cfg sanitizeHtml (Push_request env now token req) db =
     fst (snd (push_send_handler cfg env sanitizeHtml now token req db))"

definition serve :: "config \<Rightarrow> (string \<Rightarrow> string) \<Rightarrow> request list \<Rightarrow> database" where
  "serve cfg sanitizeHtml reqs = fold (handle cfg sanitizeHtml) reqs empty_database"

section \<open>Observations used in the statements\<close>

text \<open>
  What the \<^verbatim>\<open>try\<close> block of the dispatch loop does for one stored row: a row whose JSON
  does not parse is a failure without status code.
\<close>

definition row_outcome :: "push_env \<Rightarrow> payload \<Rightarrow> push_subscription \<Rightarrow> send_outcome" where
  "row_outcome env pl s =
     (case JSON_parse env (ps_subscription_json s) of
        None \<Rightarrow> Rejected None
      | Some sub \<Rightarrow> sendNotification env sub pl)"

text \<open>The push service says the endpoint is permanently gone: HTTP 404 or 410.\<close>

definition gone :: "send_outcome \<Rightarrow> bool" where
  "gone out \<longleftrightarrow> out = Rejected (Some 404) \<or> out = Rejected (Some 410)"

definition pruned :: "push_env \<Rightarrow> payload \<Rightarrow> push_subscription \<Rightarrow> bool" where
  "pruned env pl s \<longleftrightarrow> gone (row_outcome env pl s) \<and> \<not> delete_fails env (ps_endpoint s)"

text \<open>The subscriptions a delivery was attempted to, and the endpoints a DELETE was issued for.\<close>

fun sends :: "effect list \<Rightarrow> subscription list" where
  "sends [] = []"
| "sends (Send_notification sub pl # es) = sub # sends es"
| "sends (e # es) = sends es"

fun deletes :: "effect list \<Rightarrow> string list" where
  "deletes [] = []"
| "deletes (Delete_subscription e # es) = e # deletes es"
| "deletes (e # es) = deletes es"

text \<open>
  What the poll table shows while one activation is in flight and no other is: at most
  one active poll before its UPDATE, none between its two statements, exactly one after
  its INSERT.
\<close>

fun activation_invariant :: "activation \<Rightarrow> database \<Rightarrow> bool" where
  "activation_invariant (Before_update q os) db \<longleftrightarrow> count_active db \<le> 1"
| "activation_invariant (Before_insert q os) db \<longleftrightarrow> count_active db = 0"
| "activation_invariant Statements_done db \<longleftrightarrow> count_active db = 1"

text \<open>
  The row \<open>l\<close> is the most recent idea of device \<open>h\<close> in the table: a row of \<open>h\<close> whose
  id is the largest among the rows of \<open>h\<close>.
\<close>

definition most_recent_idea :: "idea list \<Rightarrow> string \<Rightarrow> idea \<Rightarrow> bool" where
  "most_recent_idea rows h l \<longleftrightarrow>
     l \<in> set rows \<and> idea_device_hash l = h \<and>
     list_all (\<lambda>i. idea_device_hash i = h \<longrightarrow> idea_id i \<le> idea_id l) rows"

definition no_idea_yet :: "idea list \<Rightarrow> string \<Rightarrow> bool" where
  "no_idea_yet rows h \<longleftrightarrow> list_all (\<lambda>i. idea_device_hash i \<noteq> h) rows"

section \<open>Concrete scenarios\<close>

text \<open>
  A first poll is activated on an empty database, device \<open>d1\<close> votes for its first option,
  and a second poll is activated afterwards.
\<close>

definition first_poll_db :: database where
  "first_poll_db = insert_poll ''Cantine ?'' [''oui'', ''non''] 1000 (deactivate_previous empty_database)"

definition device_vote :: vote_request where
  "device_vote = \<lparr>vote_params_id = Some 1, vote_optionIndex = Some 0, vote_deviceHash = ''d1''\<rparr>"

definition voted_db :: database where
  "voted_db = snd (vote_handler False 2000 device_vote first_poll_db)"

definition second_poll_db :: database where
  "second_poll_db = insert_poll ''Sortie ?'' [''mer'', ''montagne''] 3000 (deactivate_previous voted_db)"

text \<open>Another device picks option 2 of poll 1, which has two options, 0 and 1.\<close>

definition bad_option_vote :: vote_request where
  "bad_option_vote = \<lparr>vote_params_id = Some 1, vote_optionIndex = Some 2, vote_deviceHash = ''d2''\<rparr>"

text \<open>
  A configuration with the default cooldown of 60 seconds and the default subject, and
  with keys that have the length of a base64url P-256 key pair. \<open>scenario_compare\<close>
  stands in for bcrypt: under it the stored hash is the hash of the password \<open>right\<close>.
\<close>

definition scenario_config :: config where
  "scenario_config =
     \<lparr>IDEA_COOLDOWN_SEC = 60, ADMIN_PASSWORD_HASH = ''$2a$12$thgir'', COOKIE_NAME = ''cvl_admin'',
      VAPID_PUBLIC_KEY =
        ''BKx3fQ9mZ_tR7vLq2-NcYd8sHwJ5bUeG1oPaXi4Tk6Mn'' @
        ''Vy0CzKx3fQ9mZ_tR7vLq2-NcYd8sHwJ5bUeG1oPaXi4'',
      VAPID_PRIVATE_KEY = ''q7Ysd2_Lk9VnB4xTz-HcW1mRg8FpJ3uAe6ZoQy5NtCi'',
      VAPID_SUBJECT = ''mailto:admin@example.com'',
      NODE_ENV_production = False\<rparr>"

definition scenario_config_no_vapid :: config where
  "scenario_config_no_vapid = scenario_config\<lparr>VAPID_PUBLIC_KEY := [], VAPID_PRIVATE_KEY := []\<rparr>"

definition scenario_compare :: "string \<Rightarrow> string \<Rightarrow> bool" where
  "scenario_compare pw h \<longleftrightarrow> h = ''$2a$12$'' @ rev pw"

text \<open>
  Three stored subscriptions; the push service answers 410 for the second and accepts
  the other two. The library refuses keys that do not have the length of a P-256 key pair
  and a subject that is neither a mailto: nor an https: URL.
\<close>

definition scenario_row :: "string \<Rightarrow> push_subscription" where
  "scenario_row e =
     \<lparr>ps_endpoint = e, ps_subscription_json = e, ps_device_hash = ''d1'',
      ps_user_agent = ''Firefox'', ps_created_at = 0, ps_updated_at = 0\<rparr>"

definition scenario_push_db :: database where
  "scenario_push_db =
     empty_database\<lparr>push_subscriptions :=
       [scenario_row ''https://push.example/a'', scenario_row ''https://push.example/b'',
        scenario_row ''https://push.example/c'']\<rparr>"

definition scenario_push_env :: push_env where
  "scenario_push_env =
     \<lparr>webpush_module = True,
      setVapidDetails_throws =
        (\<lambda>subject publicKey privateKey.
           \<not> (length publicKey = 87 \<and> length privateKey = 43 \<and>
              (take 7 subject = ''mailto:'' \<or> take 8 subject = ''https://''))),
      JSON_parse = (\<lambda>j. Some \<lparr>sub_endpoint = j, sub_p256dh = ''p256dh'', sub_auth = ''auth''\<rparr>),
      sendNotification =
        (\<lambda>sub pl. if sub_endpoint sub = ''https://push.example/b''
                  then Rejected (Some 410) else Delivered),
      delete_fails = (\<lambda>e. False)\<rparr>"

definition scenario_payload :: payload where
  "scenario_payload =
     \<lparr>pl_title = ''Info'', pl_body = ''Reunion jeudi'', pl_url = ''/'', pl_tag = ''cvl'', pl_ts = 7000\<rparr>"

definition scenario_push_request :: push_send_request where
  "scenario_push_request =
     \<lparr>req_title = Str ''Info'', req_body = Str ''Reunion jeudi'', req_url = Absent, req_tag = Absent\<rparr>"

definition scenario_poll_request :: poll_request where
  "scenario_poll_request =
     \<lparr>req_question = Str ''Sortie ?'', req_options = Some [Str ''mer'', Str ''montagne'']\<rparr>"

definition scenario_idea :: idea_request where
  "scenario_idea =
     \<lparr>req_text = Str ''Plus de bancs dans la cour'', req_category = Str ''vie-scolaire'',
      req_urgency = Str ''basse'', req_hp = Absent, req_deviceHash = ''d1''\<rparr>"

section \<open>Evaluating the scenarios\<close>

lemmas vote_scenario_defs = first_poll_db_def device_vote_def voted_db_def second_poll_db_def
  bad_option_vote_def empty_database_def insert_poll_def deactivate_previous_def next_id_def
  vote_handler_def get_poll_def isInt_def is_integer_def insert_poll_vote_def has_voted_def
  unique_votes_def

lemmas push_scenario_defs = scenario_config_def scenario_config_no_vapid_def scenario_row_def
  scenario_push_db_def scenario_push_env_def scenario_payload_def scenario_push_request_def
  sendPushToAll_def canUsePushConfig_def initWebPushIfConfigured_def delete_subscription_def
  empty_database_def row_outcome_def gone_def

lemma admin_token_passes: "requireAdmin (Some (Payload True)) = None"
  by (simp add: requireAdmin_def)

lemma scenario_idea_valid: "idea_validation scenario_idea"
  by (simp add: idea_validation_def scenario_idea_def isString_isLength_def isIn_def
        optional_isString_isLength_def)

section \<open>The vote table\<close>

lemma has_voted_iff:
  "has_voted vs pid voter \<longleftrightarrow>
     (pid, voter) \<in> set (map (\<lambda>v. (vote_poll_id v, vote_voter_hash v)) vs)"
  by (auto simp: has_voted_def list_ex_iff)

lemma insert_poll_vote_unique:
  assumes "unique_votes (poll_votes db)"
    and "insert_poll_vote fault db pid idx voter now = Inr db'"
  shows "unique_votes (poll_votes db')"
  using assms
  by (auto simp: insert_poll_vote_def unique_votes_def has_voted_iff split: if_splits)

lemma insert_poll_vote_duplicate:
  "has_voted (poll_votes db) pid voter \<Longrightarrow>
     insert_poll_vote fault db pid idx voter now =
       Inl (if fault then SQLITE_OTHER else SQLITE_CONSTRAINT)"
  by (simp add: insert_poll_vote_def)

lemma get_poll_Some_id:
  "get_poll ps pollId = Some p \<Longrightarrow> pollId = Some (poll_id p) \<and> p \<in> set ps"
  by (auto simp: get_poll_def find_Some_iff split: option.splits)

lemma get_poll_removed:
  "get_poll (filter (\<lambda>q. poll_id q \<noteq> i) ps) (Some i) = None"
  by (auto simp: get_poll_def find_None_iff)

lemma vote_handler_writes_only_on_200:
  "status (fst (vote_handler fault now req db)) \<noteq> 200 \<Longrightarrow>
     snd (vote_handler fault now req db) = db"
  by (auto simp: vote_handler_def split: option.splits sum.splits if_splits)

lemma vote_handler_unique:
  "unique_votes (poll_votes db) \<Longrightarrow>
     unique_votes (poll_votes (snd (vote_handler fault now req db)))"
  by (auto simp: vote_handler_def split: option.splits sum.splits dest: insert_poll_vote_unique)

text \<open>
  The \<^verbatim>\<open>catch\<close> around the insert does not look at the error: a first vote whose insert
  fails for any other reason is answered 409 as well, and nothing is stored.
\<close>

lemma vote_insert_fault_answered_409:
  "\<not> has_voted (poll_votes first_poll_db) 1 (vote_deviceHash device_vote) \<and>
   vote_handler True 2000 device_vote first_poll_db =
     (Response 409 (Error Vote_deja_enregistre), first_poll_db)"
  by (simp add: vote_scenario_defs)

section \<open>The poll table\<close>

lemma count_active_deactivate: "count_active (deactivate_previous db) = 0"
  by (simp add: count_active_def deactivate_previous_def filter_empty_conv)

lemma count_active_insert: "count_active (insert_poll q os now db) = count_active db + 1"
  by (simp add: count_active_def insert_poll_def)

lemma count_active_cong: "polls a = polls b \<Longrightarrow> count_active a = count_active b"
  by (simp add: count_active_def)

lemma sequential_states_le:
  "count_active db \<le> 1 \<Longrightarrow>
     list_all (\<lambda>d. count_active d \<le> 1) (sequential_states now reqs db)"
  by (induction reqs arbitrary: db) (auto simp: count_active_insert count_active_deactivate)

lemma sequential_states_last:
  "reqs \<noteq> [] \<Longrightarrow> count_active (last (sequential_states now reqs db)) = 1"
proof (induction reqs arbitrary: db)
  case Nil
  then show ?case by simp
next
  case (Cons a reqs)
  obtain q os where a: "a = (q, os)" by (cases a)
  show ?case
  proof (cases "reqs = []")
    case True
    then show ?thesis by (simp add: a count_active_insert count_active_deactivate)
  next
    case False
    have ne: "sequential_states now reqs d \<noteq> []" for d by (cases reqs) auto
    from Cons.IH [OF False] show ?thesis by (simp add: a ne)
  qed
qed

text \<open>An activation in flight alone keeps \<open>activation_invariant\<close>, under any schedule.\<close>

lemma activation_step_invariant:
  "activation_invariant a db \<Longrightarrow>
     activation_invariant (fst (activation_step now a db)) (snd (activation_step now a db))"
  by (cases a) (simp_all add: count_active_deactivate count_active_insert)

lemma server_step_single:
  "\<exists>a' db'. server_step now i (db, [a]) = (db', [a']) \<and>
     (activation_invariant a db \<longrightarrow> activation_invariant a' db')"
proof (cases "i < 1")
  case True
  then have "server_step now i (db, [a]) =
      (snd (activation_step now a db), [fst (activation_step now a db)])"
    by (simp add: server_step_def split: prod.splits)
  then show ?thesis using activation_step_invariant by blast
next
  case False
  then show ?thesis by (simp add: server_step_def)
qed

lemma run_schedule_single:
  "activation_invariant a db \<Longrightarrow>
     \<exists>a' db'. run_schedule now sched (db, [a]) = (db', [a']) \<and> activation_invariant a' db'"
proof (induction sched arbitrary: a db)
  case Nil
  then show ?case by (simp add: run_schedule_def)
next
  case (Cons i sched)
  from server_step_single [of now i db a] Cons.prems
  obtain a1 db1 where 1: "server_step now i (db, [a]) = (db1, [a1])"
    and 2: "activation_invariant a1 db1"
    by blast
  from Cons.IH [OF 2] 1 show ?case by (simp add: run_schedule_def)
qed

section \<open>The dispatch loop\<close>

lemma sends_append: "sends (xs @ ys) = sends xs @ sends ys"
  by (induction xs rule: sends.induct) auto

lemma deletes_append: "deletes (xs @ ys) = deletes xs @ deletes ys"
  by (induction xs rule: deletes.induct) auto

text \<open>One iteration, in terms of the row's outcome.\<close>

lemma push_one_eq:
  "push_one env pl s (db, n, m, es) =
     ((if pruned env pl s
       then db\<lparr>push_subscriptions :=
                 filter (\<lambda>r. ps_endpoint r \<noteq> ps_endpoint s) (push_subscriptions db)\<rparr>
       else db),
      (if row_outcome env pl s = Delivered then n + 1 else n),
      (if row_outcome env pl s = Delivered then m else m + 1),
      es @ (case JSON_parse env (ps_subscription_json s) of None \<Rightarrow> []
            | Some sub \<Rightarrow> [Send_notification sub pl]) @
           (if gone (row_outcome env pl s) then [Delete_subscription (ps_endpoint s)] else []))"
  by (auto simp: row_outcome_def gone_def pruned_def delete_subscription_def
           split: option.splits send_outcome.splits)

text \<open>
  The whole loop. It walks the rows read at the start while the table shrinks under it:
  induction on the rows, with the loop state generalised.
\<close>

lemma push_loop_eq:
  "push_loop env pl subs (db, n, m, es) =
     (db\<lparr>push_subscriptions :=
           filter (\<lambda>r. ps_endpoint r \<notin> ps_endpoint ` {s \<in> set subs. pruned env pl s})
             (push_subscriptions db)\<rparr>,
      n + length (filter (\<lambda>s. row_outcome env pl s = Delivered) subs),
      m + length (filter (\<lambda>s. row_outcome env pl s \<noteq> Delivered) subs),
      es @ concat (map (\<lambda>s.
             (case JSON_parse env (ps_subscription_json s) of None \<Rightarrow> []
              | Some sub \<Rightarrow> [Send_notification sub pl]) @
             (if gone (row_outcome env pl s) then [Delete_subscription (ps_endpoint s)] else []))
           subs))"
proof (induction subs arbitrary: db n m es)
  case Nil
  then show ?case by simp
next
  case (Cons s subs)
  have f: "ps_endpoint ` {x. (x = s \<or> x \<in> set subs) \<and> pruned env pl x} =
           insert (ps_endpoint s) (ps_endpoint ` {x \<in> set subs. pruned env pl x})"
    if "pruned env pl s"
    using that by auto
  have g: "{x. (x = s \<or> x \<in> set subs) \<and> pruned env pl x} = {x \<in> set subs. pruned env pl x}"
    if "\<not> pruned env pl s"
    using that by auto
  show ?case
    by (simp only: push_loop.simps push_one_eq Cons.IH) (auto simp: f g)
qed

lemma sends_concat:
  "sends (concat (map (\<lambda>s.
             (case JSON_parse env (ps_subscription_json s) of None \<Rightarrow> []
              | Some sub \<Rightarrow> [Send_notification sub pl]) @
             (if gone (row_outcome env pl s) then [Delete_subscription (ps_endpoint s)] else []))
           subs)) = List.map_filter (\<lambda>s. JSON_parse env (ps_subscription_json s)) subs"
  by (induction subs) (auto simp: sends_append split: option.splits)

lemma deletes_concat:
  "deletes (concat (map (\<lambda>s.
             (case JSON_parse env (ps_subscription_json s) of None \<Rightarrow> []
              | Some sub \<Rightarrow> [Send_notification sub pl]) @
             (if gone (row_outcome env pl s) then [Delete_subscription (ps_endpoint s)] else []))
           subs)) = map ps_endpoint (filter (\<lambda>s. gone (row_outcome env pl s)) subs)"
  by (induction subs) (auto simp: deletes_append split: option.splits)

text \<open>With \<^verbatim>\<open>endpoint TEXT PRIMARY KEY\<close>, deleting by endpoint removes that row and no other.\<close>

lemma filter_pruned_distinct:
  assumes "distinct (map ps_endpoint subs)"
  shows "filter (\<lambda>r. ps_endpoint r \<notin> ps_endpoint ` {s \<in> set subs. pruned env pl s}) subs =
         filter (\<lambda>r. \<not> pruned env pl r) subs"
proof (rule filter_cong [OF refl])
  fix r assume r: "r \<in> set subs"
  have "ps_endpoint r \<in> ps_endpoint ` {s \<in> set subs. pruned env pl s} \<longleftrightarrow> pruned env pl r"
  proof
    assume "ps_endpoint r \<in> ps_endpoint ` {s \<in> set subs. pruned env pl s}"
    then obtain s where s: "s \<in> set subs" "pruned env pl s" "ps_endpoint s = ps_endpoint r"
      by auto
    from assms r s(1,3) have "s = r"
      by (meson distinct_map inj_onD)
    with s(2) show "pruned env pl r" by simp
  next
    assume "pruned env pl r"
    with r show "ps_endpoint r \<in> ps_endpoint ` {s \<in> set subs. pruned env pl s}" by auto
  qed
  then show "(ps_endpoint r \<notin> ps_endpoint ` {s \<in> set subs. pruned env pl s}) = (\<not> pruned env pl r)"
    by simp
qed

lemma sendPushToAll_enabled:
  assumes "canUsePushConfig cfg" and "webpush_module env"
    and "\<not> setVapidDetails_throws env (VAPID_SUBJECT cfg) (VAPID_PUBLIC_KEY cfg)
             (VAPID_PRIVATE_KEY cfg)"
  shows "sendPushToAll cfg env pl db =
     (Inr \<lparr>sent = length (filter (\<lambda>s. row_outcome env pl s = Delivered) (push_subscriptions db)),
           failed = length (filter (\<lambda>s. row_outcome env pl s \<noteq> Delivered)
                              (push_subscriptions db)),
           disabled = False, reason = None\<rparr>,
      db\<lparr>push_subscriptions :=
           filter (\<lambda>r. ps_endpoint r \<notin>
                        ps_endpoint ` {s \<in> set (push_subscriptions db). pruned env pl s})
             (push_subscriptions db)\<rparr>,
      Select_subscriptions # concat (map (\<lambda>s.
             (case JSON_parse env (ps_subscription_json s) of None \<Rightarrow> []
              | Some sub \<Rightarrow> [Send_notification sub pl]) @
             (if gone (row_outcome env pl s) then [Delete_subscription (ps_endpoint s)] else []))
           (push_subscriptions db)))"
  using assms
  by (simp add: sendPushToAll_def initWebPushIfConfigured_def push_loop_eq Let_def)

lemma all_parsed_length:
  "list_all (\<lambda>s. JSON_parse env (ps_subscription_json s) \<noteq> None) subs \<Longrightarrow>
     length (List.map_filter (\<lambda>s. JSON_parse env (ps_subscription_json s)) subs) = length subs"
  by (induction subs) auto

text \<open>A dispatch changes no table but push_subscriptions.\<close>

text \<open>When the library refuses the VAPID details nothing is read, sent or deleted.\<close>

lemma sendPushToAll_vapid_rejected:
  assumes "canUsePushConfig cfg" and "webpush_module env"
    and "setVapidDetails_throws env (VAPID_SUBJECT cfg) (VAPID_PUBLIC_KEY cfg)
           (VAPID_PRIVATE_KEY cfg)"
  shows "sendPushToAll cfg env pl db = (Inl VAPID_details_rejected, db, [])"
  using assms by (simp add: sendPushToAll_def initWebPushIfConfigured_def)

lemma sendPushToAll_malformed_key:
  "sendPushToAll (scenario_config\<lparr>VAPID_PUBLIC_KEY := ''BPublicKey''\<rparr>) scenario_push_env
     scenario_payload scenario_push_db =
   (Inl VAPID_details_rejected, scenario_push_db, [])"
  by (simp add: push_scenario_defs)

lemma sendPushToAll_frame:
  "\<exists>rows. fst (snd (sendPushToAll cfg env pl db)) = db\<lparr>push_subscriptions := rows\<rparr>"
proof (cases "canUsePushConfig cfg \<and> webpush_module env \<and>
    \<not> setVapidDetails_throws env (VAPID_SUBJECT cfg) (VAPID_PUBLIC_KEY cfg) (VAPID_PRIVATE_KEY cfg)")
  case True
  then have "fst (snd (sendPushToAll cfg env pl db)) =
      db\<lparr>push_subscriptions :=
           filter (\<lambda>r. ps_endpoint r \<notin>
                        ps_endpoint ` {s \<in> set (push_subscriptions db). pruned env pl s})
             (push_subscriptions db)\<rparr>"
    by (simp add: sendPushToAll_enabled)
  then show ?thesis by blast
next
  case False
  then have "fst (snd (sendPushToAll cfg env pl db)) =
      db\<lparr>push_subscriptions := push_subscriptions db\<rparr>"
    by (auto simp: sendPushToAll_def initWebPushIfConfigured_def)
  then show ?thesis by blast
qed

lemma sendPushToAll_polls_eq:
  "sendPushToAll cfg env pl db = (r, db', e) \<Longrightarrow> polls db' = polls db"
  using sendPushToAll_frame [of cfg env pl db] by auto

lemma sendPushToAll_votes_eq:
  "sendPushToAll cfg env pl db = (r, db', e) \<Longrightarrow> poll_votes db' = poll_votes db"
  using sendPushToAll_frame [of cfg env pl db] by auto

text \<open>
  The activation handler does not look at what its automatic notification returns: it
  answers 200 also for the disabled result, unless the dispatch ends in an exception.
\<close>

lemma auto_push_result_discarded:
  "requireAdmin token = None \<Longrightarrow> poll_validation req \<Longrightarrow>
     fst (admin_poll_handler cfg env sanitizeHtml now token req db) = Inr (Response 200 Ok_true) \<or>
     (\<exists>e. fst (admin_poll_handler cfg env sanitizeHtml now token req db) = Inl e)"
  by (auto simp: admin_poll_handler_def Let_def split: prod.splits sum.splits)

section \<open>Who writes the vote table\<close>

lemma ideas_handler_votes:
  "poll_votes (snd (ideas_handler cfg sanitizeHtml now req db)) = poll_votes db"
  by (simp add: ideas_handler_def insert_idea_def split: option.splits)

lemma admin_poll_handler_votes:
  "poll_votes (fst (snd (admin_poll_handler cfg env sanitizeHtml now token req db))) = poll_votes db"
  by (auto simp: admin_poll_handler_def Let_def insert_poll_def deactivate_previous_def
           split: option.splits prod.splits sum.splits dest: sendPushToAll_votes_eq)

lemma push_send_handler_votes:
  "poll_votes (fst (snd (push_send_handler cfg env sanitizeHtml now token req db))) = poll_votes db"
  by (auto simp: push_send_handler_def Let_def split: option.splits prod.splits sum.splits
           dest: sendPushToAll_votes_eq)

lemma handle_unique:
  "unique_votes (poll_votes db) \<Longrightarrow> unique_votes (poll_votes (handle cfg sanitizeHtml r db))"
  by (cases r)
     (simp_all add: vote_handler_unique ideas_handler_votes admin_poll_handler_votes
        push_send_handler_votes)

lemma fold_handle_unique:
  "unique_votes (poll_votes db) \<Longrightarrow>
     unique_votes (poll_votes (fold (handle cfg sanitizeHtml) reqs db))"
  by (induction reqs arbitrary: db) (simp_all add: handle_unique)

lemma serve_unique: "unique_votes (poll_votes (serve cfg sanitizeHtml reqs))"
  unfolding serve_def
  by (rule fold_handle_unique) (simp add: empty_database_def unique_votes_def)

section \<open>Rounding to a double\<close>

lemma pow2_nat: "0 \<le> k \<Longrightarrow> (2::rat) powi k = 2 ^ nat k"
  by (simp add: power_int_def)

lemma exponent_bounds:
  assumes "x \<noteq> 0"
  shows "2 powi (exponent x) \<le> \<bar>x\<bar>" and "\<bar>x\<bar> < 2 powi (exponent x + 1)"
proof -
  obtain p q where pq: "quotient_of \<bar>x\<bar> = (p, q)" by (cases "quotient_of \<bar>x\<bar>")
  then have q: "0 < q" and x: "\<bar>x\<bar> = of_int p / of_int q"
    using quotient_of_denom_pos quotient_of_div by blast+
  from assms have "0 < \<bar>x\<bar>" by simp
  with x q have p: "0 < p" by (simp add: zero_less_divide_iff)
  let ?bp = "bitlen p" and ?bq = "bitlen q"
  from bitlen_bounds [OF p] have p1: "2 ^ nat (?bp - 1) \<le> p" and p2: "p < 2 ^ nat ?bp" by auto
  from bitlen_bounds [OF q] have q1: "2 ^ nat (?bq - 1) \<le> q" and q2: "q < 2 ^ nat ?bq" by auto
  have bp: "1 \<le> ?bp" using p by (simp add: bitlen_alt_def)
  have bq: "1 \<le> ?bq" using q by (simp add: bitlen_alt_def)
  have P1: "(2::rat) powi (?bp - 1) \<le> of_int p"
  proof -
    have "(2::rat) powi (?bp - 1) = of_int (2 ^ nat (?bp - 1))" using bp by (simp add: pow2_nat)
    also have "\<dots> \<le> of_int p" using p1 by (simp only: of_int_le_iff)
    finally show ?thesis .
  qed
  have P2: "of_int p < (2::rat) powi ?bp"
  proof -
    have "(of_int p :: rat) < of_int (2 ^ nat ?bp)" using p2 by (simp only: of_int_less_iff)
    also have "\<dots> = 2 powi ?bp" using bp by (simp add: pow2_nat)
    finally show ?thesis .
  qed
  have Q1: "(2::rat) powi (?bq - 1) \<le> of_int q"
  proof -
    have "(2::rat) powi (?bq - 1) = of_int (2 ^ nat (?bq - 1))" using bq by (simp add: pow2_nat)
    also have "\<dots> \<le> of_int q" using q1 by (simp only: of_int_le_iff)
    finally show ?thesis .
  qed
  have Q2: "of_int q < (2::rat) powi ?bq"
  proof -
    have "(of_int q :: rat) < of_int (2 ^ nat ?bq)" using q2 by (simp only: of_int_less_iff)
    also have "\<dots> = 2 powi ?bq" using bq by (simp add: pow2_nat)
    finally show ?thesis .
  qed
  let ?k = "?bp - ?bq"
  have qpos: "(0::rat) < of_int q" using q by simp
  have upper: "\<bar>x\<bar> < 2 powi (?k + 1)"
  proof -
    have "of_int p < (2::rat) powi ?bp" by (rule P2)
    also have "\<dots> = 2 powi (?k + 1) * 2 powi (?bq - 1)"
      by (simp flip: power_int_add)
    also have "\<dots> \<le> 2 powi (?k + 1) * of_int q"
      using Q1 by (intro mult_left_mono) simp_all
    finally have "of_int p / of_int q < (2::rat) powi (?k + 1)"
      using qpos by (simp add: pos_divide_less_eq)
    then show ?thesis by (simp add: x)
  qed
  have lower: "2 powi (?k - 1) < \<bar>x\<bar>"
  proof -
    have "(2::rat) powi (?k - 1) * of_int q < 2 powi (?k - 1) * 2 powi ?bq"
      using Q2 by (intro mult_strict_left_mono) simp_all
    also have "\<dots> = 2 powi (?bp - 1)"
      by (simp flip: power_int_add)
    also have "\<dots> \<le> of_int p" by (rule P1)
    finally have "(2::rat) powi (?k - 1) < of_int p / of_int q"
      using qpos by (simp add: pos_less_divide_eq)
    then show ?thesis by (simp add: x)
  qed
  have e: "exponent x = (if 2 powi ?k \<le> \<bar>x\<bar> then ?k else ?k - 1)"
    by (simp add: exponent_def pq Let_def)
  show "2 powi (exponent x) \<le> \<bar>x\<bar>"
    using lower by (auto simp: e)
  show "\<bar>x\<bar> < 2 powi (exponent x + 1)"
    using upper by (auto simp: e)
qed

lemma round_half_even_error: "\<bar>of_int (round_half_even y) - y\<bar> \<le> 1 / 2"
proof -
  have "of_int \<lfloor>y\<rfloor> \<le> y" "y < of_int \<lfloor>y\<rfloor> + 1" by linarith+
  then show ?thesis
    by (auto simp: round_half_even_def Let_def abs_le_iff)
qed

lemma round_half_even_int: "round_half_even (of_int n) = n"
  by (simp add: round_half_even_def)

lemma round_double_error: "\<bar>round_double x - x\<bar> \<le> \<bar>x\<bar> / 2 ^ 53"
proof (cases "x = 0")
  case True
  then show ?thesis by (simp add: round_double_def)
next
  case False
  let ?u = "(2::rat) powi (exponent x - 52)"
  have u: "0 < ?u" by simp
  have "\<bar>round_double x - x\<bar> = \<bar>of_int (round_half_even (x / ?u)) - x / ?u\<bar> * ?u"
  proof -
    have "round_double x - x = (of_int (round_half_even (x / ?u)) - x / ?u) * ?u"
      using False by (simp add: round_double_def Let_def algebra_simps)
    then show ?thesis by (simp add: abs_mult)
  qed
  also have "\<dots> \<le> 1 / 2 * ?u"
    using round_half_even_error [of "x / ?u"] u by (intro mult_right_mono) simp_all
  also have "\<dots> = 2 powi (exponent x) / 2 ^ 53"
  proof -
    have "(2::rat) powi (exponent x - 52 + 52) = 2 powi (exponent x - 52) * 2 powi 52"
      by (rule power_int_add) simp
    then show ?thesis by simp
  qed
  also have "\<dots> \<le> \<bar>x\<bar> / 2 ^ 53"
    using exponent_bounds(1) [OF False] by (simp add: divide_right_mono)
  finally show ?thesis .
qed

lemma round_double_int:
  assumes "\<bar>n\<bar> < 2 ^ 53"
  shows "round_double (of_int n) = of_int n"
proof (cases "n = 0")
  case True
  then show ?thesis by (simp add: round_double_def)
next
  case False
  let ?x = "of_int n :: rat"
  let ?e = "exponent ?x"
  have x0: "?x \<noteq> 0" using False by simp
  have "2 powi ?e \<le> \<bar>?x\<bar>" using exponent_bounds(1) [OF x0] .
  also have "\<bar>?x\<bar> < 2 powi 53"
  proof -
    have "\<bar>?x\<bar> = of_int \<bar>n\<bar>" by simp
    also have "\<dots> < of_int (2 ^ 53)" using assms by (simp only: of_int_less_iff)
    also have "\<dots> = (2::rat) powi 53" by simp
    finally show ?thesis .
  qed
  finally have lt: "(2::rat) powi ?e < 2 powi 53" .
  have e: "?e < 53"
  proof (rule ccontr)
    assume "\<not> ?e < 53"
    then have "(2::rat) powi 53 \<le> 2 powi ?e" by (intro power_int_increasing) simp_all
    with lt show False by simp
  qed
  then have k: "0 \<le> 52 - ?e" by simp
  have inv: "1 / (2::rat) powi (?e - 52) = of_int (2 ^ nat (52 - ?e))"
  proof -
    have "1 / (2::rat) powi (?e - 52) = 2 powi (52 - ?e)"
      by (simp add: power_int_diff)
    also have "\<dots> = 2 ^ nat (52 - ?e)" using k by (rule pow2_nat)
    finally show ?thesis by simp
  qed
  have "?x / 2 powi (?e - 52) = ?x * (1 / 2 powi (?e - 52))" by simp
  also have "\<dots> = of_int (n * 2 ^ nat (52 - ?e))" by (simp only: inv of_int_mult)
  finally have q: "?x / 2 powi (?e - 52) = of_int (n * 2 ^ nat (52 - ?e))" .
  have "round_double ?x = of_int (n * 2 ^ nat (52 - ?e)) * 2 powi (?e - 52)"
    using x0 by (simp only: round_double_def Let_def q round_half_even_int if_False)
  also have "\<dots> = ?x * (of_int (2 ^ nat (52 - ?e)) * 2 powi (?e - 52))"
    by (simp only: of_int_mult mult.assoc)
  also have "of_int (2 ^ nat (52 - ?e)) * (2::rat) powi (?e - 52) = 1"
    by (simp only: inv [symmetric]) simp
  finally show ?thesis by simp
qed

text \<open>
  For a cooldown of whole seconds and clock readings less than \<open>2 ^ 41\<close> milliseconds
  apart (69 years), the cooldown formula in doubles has the ceiling of the exact
  difference: the exact difference is a whole number, and then every step is exact, or it
  is at least a thousandth away from every whole number, and the rounding errors are
  smaller than that.
\<close>

lemma cooldown_double_exact:
  fixes c d :: int
  assumes c: "\<bar>c\<bar> \<le> 2 ^ 31" and d: "\<bar>d\<bar> \<le> 2 ^ 41"
  shows "\<lceil>round_double (of_int c - round_double (round_double (of_int d) / 1000))\<rceil> =
         \<lceil>(of_int c :: rat) - of_int d / 1000\<rceil>"
proof -
  have d53: "\<bar>d\<bar> < 2 ^ 53" using d by simp
  have rd: "round_double (of_int d) = of_int d" by (rule round_double_int [OF d53])
  let ?y = "of_int d / 1000 :: rat"
  let ?q = "round_double ?y"
  let ?x = "of_int c - ?q"
  let ?t = "of_int c - ?y"
  show ?thesis
  proof (cases "1000 dvd d")
    case True
    then obtain k where k: "d = 1000 * k" by (rule dvdE)
    then have yk: "?y = of_int k" by simp
    from k d have kb: "\<bar>k\<bar> \<le> 2 ^ 41" by (simp add: abs_mult)
    then have "\<bar>k\<bar> < 2 ^ 53" by simp
    then have rk: "round_double (of_int k) = of_int k" by (rule round_double_int)
    have "\<bar>c - k\<bar> < 2 ^ 53" using c kb by simp
    then have "round_double (of_int (c - k)) = of_int (c - k)" by (rule round_double_int)
    then have "round_double (of_int c - of_int k) = of_int c - of_int k" by simp
    then show ?thesis by (simp add: rd yk rk flip: of_int_diff)
  next
    case False
    have yb: "\<bar>?y\<bar> \<le> 2 ^ 41 / 1000"
    proof -
      have "\<bar>?y\<bar> = of_int \<bar>d\<bar> / 1000" by simp
      also have "\<dots> \<le> of_int (2 ^ 41) / 1000"
      proof (rule divide_right_mono)
        show "(of_int \<bar>d\<bar> :: rat) \<le> of_int (2 ^ 41)" using d by (simp only: of_int_le_iff)
        show "(0::rat) \<le> 1000" by simp
      qed
      finally show ?thesis by simp
    qed
    have e1: "\<bar>?q - ?y\<bar> \<le> 1 / 4096000"
    proof -
      have "\<bar>?q - ?y\<bar> \<le> \<bar>?y\<bar> / 2 ^ 53" by (rule round_double_error)
      also have "\<dots> \<le> (2 ^ 41 / 1000) / 2 ^ 53" using yb by (intro divide_right_mono) simp_all
      also have "\<dots> = 1 / 4096000" by simp
      finally show ?thesis .
    qed
    have cb: "\<bar>of_int c :: rat\<bar> \<le> 2 ^ 31"
    proof -
      have "\<bar>of_int c :: rat\<bar> = of_int \<bar>c\<bar>" by simp
      also have "\<dots> \<le> of_int (2 ^ 31)" using c by (simp only: of_int_le_iff)
      finally show ?thesis by simp
    qed
    have xb: "\<bar>?x\<bar> \<le> 2 ^ 42"
    proof -
      have "\<bar>?x\<bar> \<le> \<bar>of_int c :: rat\<bar> + \<bar>?y\<bar> + \<bar>?q - ?y\<bar>" by linarith
      also have "\<dots> \<le> 2 ^ 31 + 2 ^ 41 / 1000 + 1 / 4096000" using cb yb e1 by linarith
      also have "\<dots> \<le> 2 ^ 42" by simp
      finally show ?thesis .
    qed
    have e2: "\<bar>round_double ?x - ?x\<bar> \<le> 1 / 2048"
    proof -
      have "\<bar>round_double ?x - ?x\<bar> \<le> \<bar>?x\<bar> / 2 ^ 53" by (rule round_double_error)
      also have "\<dots> \<le> 2 ^ 42 / 2 ^ 53" using xb by (intro divide_right_mono) simp_all
      also have "\<dots> = 1 / 2048" by simp
      finally show ?thesis .
    qed
    have close: "\<bar>round_double ?x - ?t\<bar> < 1 / 1000"
    proof -
      have "\<bar>round_double ?x - ?t\<bar> \<le> \<bar>round_double ?x - ?x\<bar> + \<bar>?q - ?y\<bar>" by linarith
      also have "\<dots> \<le> 1 / 2048 + 1 / 4096000" using e1 e2 by linarith
      also have "\<dots> < 1 / 1000" by simp
      finally show ?thesis .
    qed
    obtain n r :: int where m: "1000 * c - d = 1000 * n + r" and r: "1 \<le> r" "r \<le> 999"
    proof
      show "1000 * c - d = 1000 * ((1000 * c - d) div 1000) + (1000 * c - d) mod 1000" by simp
      have "(1000 * c - d) mod 1000 \<noteq> 0"
      proof
        assume "(1000 * c - d) mod 1000 = 0"
        then have "1000 dvd 1000 * c - d" by (simp only: dvd_eq_mod_eq_0)
        moreover have "(1000::int) dvd 1000 * c" by simp
        ultimately have "1000 dvd 1000 * c - (1000 * c - d)" by (rule dvd_diff [rotated])
        then show False using False by simp
      qed
      moreover have "0 \<le> (1000 * c - d) mod 1000" "(1000 * c - d) mod 1000 < 1000" by simp_all
      ultimately show "1 \<le> (1000 * c - d) mod 1000" "(1000 * c - d) mod 1000 \<le> 999"
        by linarith+
    qed
    have t: "?t = of_int n + of_int r / 1000"
    proof -
      have "?t = of_int (1000 * c - d) / 1000" by (simp add: field_simps)
      also have "\<dots> = of_int (1000 * n + r) / 1000" by (simp only: m)
      also have "\<dots> = of_int n + of_int r / 1000" by (simp add: field_simps)
      finally show ?thesis .
    qed
    have r1: "(1::rat) / 1000 \<le> of_int r / 1000" using r(1) by simp
    have r2: "of_int r / 1000 \<le> (999::rat) / 1000" using r(2) by simp
    have tl: "of_int n + 1 / 1000 \<le> ?t" and tu: "?t \<le> of_int n + 999 / 1000"
      using t r1 r2 by linarith+
    have ct: "\<lceil>?t\<rceil> = n + 1"
    proof (rule ceiling_unique)
      show "of_int (n + 1) - 1 < ?t" using tl by simp
      show "?t \<le> of_int (n + 1)" using tu by simp
    qed
    from close have cl: "?t - 1 / 1000 < round_double ?x" and cu: "round_double ?x < ?t + 1 / 1000"
      by linarith+
    have "\<lceil>round_double ?x\<rceil> = n + 1"
    proof (rule ceiling_unique)
      show "of_int (n + 1) - 1 < round_double ?x"
        using tl cl by simp
      show "round_double ?x \<le> of_int (n + 1)"
        using tu cu by simp
    qed
    with ct show ?thesis by (simp only: rd)
  qed
qed

section \<open>The most recent idea of a device\<close>

lemma fold_newer_Some: "fold newer xs (Some j) \<noteq> None"
  by (induction xs arbitrary: j) (auto simp: newer_def)

lemma fold_newer_max:
  "fold newer xs acc = Some l \<Longrightarrow>
     (l \<in> set xs \<or> acc = Some l) \<and> (\<forall>i\<in>set xs. idea_id i \<le> idea_id l) \<and>
     (\<forall>j. acc = Some j \<longrightarrow> idea_id j \<le> idea_id l)"
proof (induction xs arbitrary: acc)
  case Nil
  then show ?case by simp
next
  case (Cons x xs)
  from Cons.prems have "fold newer xs (newer x acc) = Some l" by simp
  from Cons.IH [OF this] show ?case
    by (cases acc) (auto simp: newer_def split: if_splits)
qed

lemma last_idea_None: "last_idea rows h = None \<longleftrightarrow> (\<forall>i\<in>set rows. idea_device_hash i \<noteq> h)"
proof -
  have "fold newer xs None = None \<longleftrightarrow> xs = []" for xs
    by (cases xs) (auto simp: newer_def fold_newer_Some)
  then show ?thesis by (auto simp: last_idea_def filter_empty_conv)
qed

lemma last_idea_Some:
  "last_idea rows h = Some l \<Longrightarrow>
     l \<in> set rows \<and> idea_device_hash l = h \<and>
     (\<forall>i\<in>set rows. idea_device_hash i = h \<longrightarrow> idea_id i \<le> idea_id l)"
  unfolding last_idea_def by (drule fold_newer_max) auto

lemma fold_max_ge: "(a::int) \<le> fold max ids a"
proof (induction ids arbitrary: a)
  case Nil
  then show ?case by simp
next
  case (Cons x ids)
  have "a \<le> max x a" by simp
  also have "\<dots> \<le> fold max ids (max x a)" by (rule Cons.IH)
  finally show ?case by simp
qed

lemma fold_max_mem: "i \<in> set ids \<Longrightarrow> (i::int) \<le> fold max ids a"
proof (induction ids arbitrary: a)
  case Nil
  then show ?case by simp
next
  case (Cons x ids)
  show ?case
  proof (cases "i = x")
    case True
    have "x \<le> max x a" by simp
    also have "\<dots> \<le> fold max ids (max x a)" by (rule fold_max_ge)
    finally show ?thesis using True by simp
  next
    case False
    with Cons show ?thesis by simp
  qed
qed

lemma next_id_fresh: "i \<in> set ids \<Longrightarrow> i < next_id ids"
  using fold_max_mem [of i ids 0] by (simp add: next_id_def)

lemma last_idea_after_insert:
  "last_idea (ideas (insert_idea t c u h now db)) h =
     Some \<lparr>idea_id = next_id (map idea_id (ideas db)), idea_text = t, idea_category = c,
           idea_urgency = u, idea_status = ''nouveau'', idea_device_hash = h,
           idea_created_at = now\<rparr>"
proof (cases "last_idea (ideas db) h")
  case None
  then show ?thesis by (simp add: insert_idea_def last_idea_def newer_def)
next
  case (Some l)
  then have "l \<in> set (ideas db)" using last_idea_Some by blast
  then have "idea_id l < next_id (map idea_id (ideas db))"
    by (intro next_id_fresh) simp
  with Some show ?thesis by (simp add: insert_idea_def last_idea_def newer_def)
qed

lemma most_recent_idea_lookup:
  assumes "distinct (map idea_id rows)" and "most_recent_idea rows h l"
  shows "last_idea rows h = Some l"
proof -
  from assms(2) have l: "l \<in> set rows" "idea_device_hash l = h"
    and top: "\<forall>i\<in>set rows. idea_device_hash i = h \<longrightarrow> idea_id i \<le> idea_id l"
    by (simp_all add: most_recent_idea_def list_all_iff)
  from l have "last_idea rows h \<noteq> None" by (auto simp: last_idea_None)
  then obtain l' where l': "last_idea rows h = Some l'" by blast
  from last_idea_Some [OF l'] l top have "l' \<in> set rows" "idea_id l' = idea_id l"
    by (auto intro: antisym)
  with assms(1) l(1) have "l' = l"
    by (meson distinct_map inj_onD)
  with l' show ?thesis by simp
qed

lemma no_idea_yet_lookup: "no_idea_yet rows h \<Longrightarrow> last_idea rows h = None"
  by (simp add: no_idea_yet_def list_all_iff last_idea_None)

lemma cooldown_remaining_whole_seconds:
  assumes "\<bar>c\<bar> \<le> 2 ^ 31" and "\<bar>now - idea_created_at l\<bar> \<le> 2 ^ 41"
  shows "cooldown_remaining (of_int c) now (Some l) =
     (if 0 < \<lceil>(of_int c :: rat) - of_int (now - idea_created_at l) / 1000\<rceil>
      then Some \<lceil>(of_int c :: rat) - of_int (now - idea_created_at l) / 1000\<rceil> else None)"
  by (simp only: cooldown_remaining_def Let_def option.case cooldown_double_exact [OF assms])

lemma cooldown_remaining_reject:
  assumes "\<bar>c\<bar> \<le> 2 ^ 31" and "\<bar>now - idea_created_at l\<bar> \<le> 2 ^ 41"
    and "of_int (now - idea_created_at l) / 1000 < (of_int c :: rat)"
  shows "cooldown_remaining (of_int c) now (Some l) =
           Some \<lceil>(of_int c :: rat) - of_int (now - idea_created_at l) / 1000\<rceil>"
    and "0 < \<lceil>(of_int c :: rat) - of_int (now - idea_created_at l) / 1000\<rceil>"
proof -
  from assms(3) have "0 < (of_int c :: rat) - of_int (now - idea_created_at l) / 1000" by simp
  then show pos: "0 < \<lceil>(of_int c :: rat) - of_int (now - idea_created_at l) / 1000\<rceil>"
    by simp
  then show "cooldown_remaining (of_int c) now (Some l) =
               Some \<lceil>(of_int c :: rat) - of_int (now - idea_created_at l) / 1000\<rceil>"
    by (simp only: cooldown_remaining_whole_seconds [OF assms(1,2)] if_True)
qed

lemma cooldown_remaining_allow:
  assumes "\<bar>c\<bar> \<le> 2 ^ 31" and "\<bar>now - idea_created_at l\<bar> \<le> 2 ^ 41"
    and "(of_int c :: rat) \<le> of_int (now - idea_created_at l) / 1000"
  shows "cooldown_remaining (of_int c) now (Some l) = None"
proof -
  from assms(3) have "(of_int c :: rat) - of_int (now - idea_created_at l) / 1000 \<le> 0" by simp
  then have "\<not> 0 < \<lceil>(of_int c :: rat) - of_int (now - idea_created_at l) / 1000\<rceil>"
    by simp
  then show ?thesis
    by (simp only: cooldown_remaining_whole_seconds [OF assms(1,2)] if_False)
qed

text \<open>
  For a cooldown that is not a whole number of seconds the double arithmetic shows: with
  \<^verbatim>\<open>IDEA_COOLDOWN_SEC=2.2\<close> the constant is the double nearest to 2.2, a little above it,
  and for an idea 1.2 seconds old the handler computes 2, where the ceiling of the decimal
  difference \<open>2.2 - 1.2\<close> is 1.
\<close>

lemma fractional_cooldown_in_doubles:
  "cooldown_remaining (round_double (22 / 10)) 1200
     (Some \<lparr>idea_id = 1, idea_text = ''Plus de bancs'', idea_category = ''autre'',
            idea_urgency = ''basse'', idea_status = ''nouveau'', idea_device_hash = ''d1'',
            idea_created_at = 0\<rparr>) = Some 2 \<and>
   \<lceil>(22 / 10 :: rat) - 1200 / 1000\<rceil> = 1"
  by code_simp

lemma fractional_cooldown_handler:
  "fst (ideas_handler (scenario_config\<lparr>IDEA_COOLDOWN_SEC := 22 / 10\<rparr>) id 1200 scenario_idea
     (snd (ideas_handler (scenario_config\<lparr>IDEA_COOLDOWN_SEC := 22 / 10\<rparr>) id 0 scenario_idea
        empty_database))) =
   Response 429 (Error_retry Trop_de_requetes 2)"
  by code_simp

section \<open>Poll activation\<close>

text \<open>
  C1 (amended). Activating a new poll runs two statements that are committed one by
  one: the first deactivates every active poll, the second inserts the new poll as active;
  no transaction spans them, and the first statement leaves no poll active. Whenever no
  statement of another activation runs between the two, the poll table never shows two
  active polls if it showed at most one before: it shows none between the two statements
  and exactly one after the second. This covers the two statements run back to back, the
  handler run without interruption, one activation in flight alone under any schedule,
  and activations run one after the other. Nothing is stated for activations whose
  statements interleave.
\<close>

theorem poll_activation_sequential:
  "count_active (deactivate_previous db) = 0 \<and>
   count_active (insert_poll q os now (deactivate_previous db)) = 1 \<and>
   (requireAdmin token = None \<and> poll_validation req \<longrightarrow>
      count_active (fst (snd (admin_poll_handler cfg env sanitizeHtml now token req db))) = 1) \<and>
   (count_active db \<le> 1 \<longrightarrow>
      (\<exists>a' db'. run_schedule now sched (db, [Before_update q os]) = (db', [a']) \<and>
         activation_invariant a' db' \<and> count_active db' \<le> 1)) \<and>
   (count_active db \<le> 1 \<longrightarrow>
      list_all (\<lambda>d. count_active d \<le> 1) (sequential_states now reqs db)) \<and>
   (reqs \<noteq> [] \<longrightarrow> count_active (last (sequential_states now reqs db)) = 1)"
proof -
  have h: "requireAdmin token = None \<and> poll_validation req \<longrightarrow>
      count_active (fst (snd (admin_poll_handler cfg env sanitizeHtml now token req db))) = 1"
  proof
    assume a: "requireAdmin token = None \<and> poll_validation req"
    let ?q = "cleanText sanitizeHtml (or_empty (req_question req)) 140"
    let ?os = "map (\<lambda>opt. cleanText sanitizeHtml (or_empty opt) 60)
                 (case req_options req of None \<Rightarrow> [] | Some os \<Rightarrow> os)"
    let ?db2 = "insert_poll ?q ?os now (deactivate_previous db)"
    have "polls (fst (snd (admin_poll_handler cfg env sanitizeHtml now token req db))) = polls ?db2"
      using a
      by (auto simp: admin_poll_handler_def Let_def split: prod.splits sum.splits
               dest: sendPushToAll_polls_eq)
    then have "count_active (fst (snd (admin_poll_handler cfg env sanitizeHtml now token req db))) =
               count_active ?db2"
      by (rule count_active_cong)
    then show "count_active (fst (snd (admin_poll_handler cfg env sanitizeHtml now token req db))) = 1"
      by (simp add: count_active_insert count_active_deactivate)
  qed
  have s: "count_active db \<le> 1 \<longrightarrow>
      (\<exists>a' db'. run_schedule now sched (db, [Before_update q os]) = (db', [a']) \<and>
         activation_invariant a' db' \<and> count_active db' \<le> 1)"
  proof
    assume "count_active db \<le> 1"
    then have "activation_invariant (Before_update q os) db" by simp
    from run_schedule_single [OF this, of now sched]
    obtain a' db' where r: "run_schedule now sched (db, [Before_update q os]) = (db', [a'])"
      and i: "activation_invariant a' db'"
      by blast
    from i have "count_active db' \<le> 1" by (cases a') simp_all
    with r i show "\<exists>a' db'. run_schedule now sched (db, [Before_update q os]) = (db', [a']) \<and>
         activation_invariant a' db' \<and> count_active db' \<le> 1"
      by blast
  qed
  show ?thesis
    using h s sequential_states_le [of db now reqs] sequential_states_last [of reqs now db]
    by (simp add: count_active_insert count_active_deactivate)
qed

theorem poll_activation_sequential_witness:
  "requireAdmin (Some (Payload True)) = None \<and> poll_validation scenario_poll_request \<and>
   count_active first_poll_db \<le> 1 \<and>
   count_active (fst (snd (admin_poll_handler scenario_config_no_vapid scenario_push_env id 3000
      (Some (Payload True)) scenario_poll_request first_poll_db))) = 1 \<and>
   count_active (fst (run_schedule 3000 [0, 0]
      (first_poll_db, [Before_update ''Sortie ?'' [''mer'', ''montagne'']]))) = 1 \<and>
   list_all (\<lambda>d. count_active d \<le> 1)
     (sequential_states 3000 [(''Sortie ?'', [''mer'', ''montagne''])] first_poll_db) \<and>
   count_active (last (sequential_states 3000 [(''Sortie ?'', [''mer'', ''montagne''])] first_poll_db)) = 1"
proof -
  have v: "poll_validation scenario_poll_request"
    by (simp add: poll_validation_def scenario_poll_request_def isString_isLength_def)
  have c: "count_active first_poll_db \<le> 1"
    by (simp add: count_active_def vote_scenario_defs)
  have r: "count_active (fst (run_schedule 3000 [0, 0]
      (first_poll_db, [Before_update ''Sortie ?'' [''mer'', ''montagne'']]))) = 1"
    by (simp add: vote_scenario_defs run_schedule_def server_step_def count_active_def)
  from poll_activation_sequential [of first_poll_db "''Sortie ?''" "[''mer'', ''montagne'']" 3000
      "Some (Payload True)" scenario_poll_request scenario_config_no_vapid scenario_push_env id
      "[0, 0]" "[(''Sortie ?'', [''mer'', ''montagne''])]"] admin_token_passes v c r
  show ?thesis by simp
qed

text \<open>
  The claim as written fails. With one poll active, an activation that has run its UPDATE
  and not yet its INSERT leaves a table with no active poll; and two activations whose
  statements interleave (UPDATE, UPDATE, INSERT, INSERT) leave two active polls, both
  handlers having run both statements.
\<close>

theorem poll_activation_not_atomic_counterexample:
  "count_active first_poll_db = 1 \<and>
   count_active (fst (run_schedule 5000 [0]
      (first_poll_db, [Before_update ''Sortie ?'' [''mer'', ''montagne'']]))) = 0 \<and>
   count_active (fst (run_schedule 5000 [0, 1, 0, 1]
      (first_poll_db, [Before_update ''Sortie ?'' [''mer'', ''montagne''],
                       Before_update ''Bal ?'' [''oui'', ''non'']]))) = 2"
  by (simp add: vote_scenario_defs run_schedule_def server_step_def count_active_def)

section \<open>One vote per device and poll\<close>

text \<open>
  C2 (amended). For every (poll_id, voter_hash) pair at most one poll_votes row exists:
  this holds of the database after any list of requests served from an empty one, and the
  vote handler keeps it. A further vote attempt of a device on a poll it has voted on
  never succeeds and writes nothing. It is answered by the conflict
  signal 409 whenever the poll is still active and the option index is valid for it; the
  checks that come before the insert answer first otherwise.
\<close>

theorem vote_once_per_device:
  assumes "unique_votes (poll_votes db)"
  shows "unique_votes (poll_votes (serve cfg sanitizeHtml reqs)) \<and>
         unique_votes (poll_votes (snd (vote_handler fault now req db))) \<and>
         (\<forall>p. get_poll (polls db) (vote_params_id req) = Some p \<and>
               has_voted (poll_votes db) (poll_id p) (vote_deviceHash req) \<longrightarrow>
               snd (vote_handler fault now req db) = db \<and>
               status (fst (vote_handler fault now req db)) \<noteq> 200 \<and>
               (poll_active p \<and> isInt 0 50 (vote_optionIndex req) \<and>
                (\<exists>r. vote_optionIndex req = Some r \<and> r < of_nat (length (poll_options p))) \<longrightarrow>
                  fst (vote_handler fault now req db) = Response 409 (Error Vote_deja_enregistre)))"
proof (intro conjI allI impI)
  show "unique_votes (poll_votes (serve cfg sanitizeHtml reqs))"
    by (rule serve_unique)
next
  show "unique_votes (poll_votes (snd (vote_handler fault now req db)))"
    using assms by (rule vote_handler_unique)
next
  fix p
  assume h: "get_poll (polls db) (vote_params_id req) = Some p \<and>
             has_voted (poll_votes db) (poll_id p) (vote_deviceHash req)"
  then have e: "\<And>idx. insert_poll_vote fault db (poll_id p) idx (vote_deviceHash req) now =
                     Inl (if fault then SQLITE_OTHER else SQLITE_CONSTRAINT)"
    by (simp add: insert_poll_vote_duplicate)
  show "status (fst (vote_handler fault now req db)) \<noteq> 200"
    using h e by (auto simp: vote_handler_def split: option.splits sum.splits)
  then show "snd (vote_handler fault now req db) = db"
    by (rule vote_handler_writes_only_on_200)
  assume v: "poll_active p \<and> isInt 0 50 (vote_optionIndex req) \<and>
             (\<exists>r. vote_optionIndex req = Some r \<and> r < of_nat (length (poll_options p)))"
  show "fst (vote_handler fault now req db) = Response 409 (Error Vote_deja_enregistre)"
    using h v e by (auto simp: vote_handler_def isInt_def split: option.splits sum.splits)
qed

theorem vote_once_per_device_witness:
  "unique_votes (poll_votes voted_db) \<and>
   has_voted (poll_votes voted_db) 1 (vote_deviceHash device_vote) \<and>
   vote_handler False 2500 device_vote voted_db = (Response 409 (Error Vote_deja_enregistre), voted_db)"
proof -
  have u: "unique_votes (poll_votes voted_db)" by (simp add: vote_scenario_defs)
  have g: "get_poll (polls voted_db) (vote_params_id device_vote) =
             Some \<lparr>poll_id = 1, poll_question = ''Cantine ?'', poll_options = [''oui'', ''non''],
                   poll_active = True, poll_created_at = 1000\<rparr>"
    by (simp add: vote_scenario_defs)
  have h: "has_voted (poll_votes voted_db) 1 (vote_deviceHash device_vote)"
    by (simp add: vote_scenario_defs)
  have v: "isInt 0 50 (vote_optionIndex device_vote)" by (simp add: vote_scenario_defs)
  have r: "vote_optionIndex device_vote = Some 0" by (simp add: device_vote_def)
  from vote_once_per_device [OF u, of _ _ _ False 2500 device_vote] g h v r
  have "snd (vote_handler False 2500 device_vote voted_db) = voted_db \<and>
        fst (vote_handler False 2500 device_vote voted_db) = Response 409 (Error Vote_deja_enregistre)"
    by simp
  with u h show ?thesis by (simp add: prod_eq_iff)
qed

text \<open>
  The claim as written fails: device \<open>d1\<close> votes on poll 1 and is accepted, a second poll
  is activated, and the device's second attempt on poll 1 is answered 404, not 409.
\<close>

theorem second_vote_on_rotated_poll_counterexample:
  "fst (vote_handler False 2000 device_vote first_poll_db) = Response 200 Ok_true \<and>
   has_voted (poll_votes second_poll_db) 1 (vote_deviceHash device_vote) \<and>
   fst (vote_handler False 4000 device_vote second_poll_db) = Response 404 (Error Sondage_introuvable)"
  by (simp add: vote_scenario_defs)

section \<open>Dispatching a push notification\<close>

text \<open>
  C3. With push in working order (both VAPID keys set, the web-push module loaded and
  the VAPID details accepted by it) and the table's endpoints distinct (its primary key),
  a dispatch returns normally and walks every stored subscription whatever happens to the
  others: a delivery is attempted to every subscription whose stored JSON parses, which is
  all of them when all parse. It returns \<open>sent\<close>, the number of rows delivered, and
  \<open>failed\<close>, the number of the others, so that \<open>sent + failed\<close> is the number of rows. A
  DELETE is issued for exactly the rows whose delivery failed with status 404 or 410, and
  the table afterwards is the table before without those of them whose DELETE did not
  fail; every delivered row is still there and no other table changes.
\<close>

theorem dispatch_counts_and_prunes:
  assumes "canUsePushConfig cfg" and "webpush_module env"
    and "\<not> setVapidDetails_throws env (VAPID_SUBJECT cfg) (VAPID_PUBLIC_KEY cfg)
             (VAPID_PRIVATE_KEY cfg)"
    and "distinct (map ps_endpoint (push_subscriptions db))"
  shows "\<exists>res db' effs.
     sendPushToAll cfg env pl db = (Inr res, db', effs) \<and>
     \<not> disabled res \<and>
     sent res = length (filter (\<lambda>s. row_outcome env pl s = Delivered) (push_subscriptions db)) \<and>
     failed res = length (filter (\<lambda>s. row_outcome env pl s \<noteq> Delivered) (push_subscriptions db)) \<and>
     sent res + failed res = length (push_subscriptions db) \<and>
     sends effs = List.map_filter (\<lambda>s. JSON_parse env (ps_subscription_json s)) (push_subscriptions db) \<and>
     (list_all (\<lambda>s. JSON_parse env (ps_subscription_json s) \<noteq> None) (push_subscriptions db) \<longrightarrow>
        length (sends effs) = length (push_subscriptions db)) \<and>
     deletes effs = map ps_endpoint (filter (\<lambda>s. gone (row_outcome env pl s)) (push_subscriptions db)) \<and>
     push_subscriptions db' =
       filter (\<lambda>s. \<not> (gone (row_outcome env pl s) \<and> \<not> delete_fails env (ps_endpoint s)))
         (push_subscriptions db) \<and>
     list_all (\<lambda>s. row_outcome env pl s = Delivered \<longrightarrow> s \<in> set (push_subscriptions db'))
       (push_subscriptions db) \<and>
     db' = db\<lparr>push_subscriptions := push_subscriptions db'\<rparr>"
proof -
  let ?subs = "push_subscriptions db"
  have len: "length (filter (\<lambda>s. row_outcome env pl s = Delivered) ?subs) +
             length (filter (\<lambda>s. row_outcome env pl s \<noteq> Delivered) ?subs) = length ?subs"
    by (rule sum_length_filter_compl)
  have keep: "list_all (\<lambda>s. row_outcome env pl s = Delivered \<longrightarrow>
                 s \<in> set (filter (\<lambda>r. \<not> pruned env pl r) ?subs)) ?subs"
    by (auto simp: list_all_iff pruned_def gone_def)
  have pr: "(\<lambda>r. \<not> pruned env pl r) =
            (\<lambda>s. \<not> (gone (row_outcome env pl s) \<and> \<not> delete_fails env (ps_endpoint s)))"
    by (simp add: pruned_def)
  have eq: "sendPushToAll cfg env pl db =
     (Inr \<lparr>sent = length (filter (\<lambda>s. row_outcome env pl s = Delivered) ?subs),
           failed = length (filter (\<lambda>s. row_outcome env pl s \<noteq> Delivered) ?subs),
           disabled = False, reason = None\<rparr>,
      db\<lparr>push_subscriptions := filter (\<lambda>r. \<not> pruned env pl r) ?subs\<rparr>,
      Select_subscriptions # concat (map (\<lambda>s.
             (case JSON_parse env (ps_subscription_json s) of None \<Rightarrow> []
              | Some sub \<Rightarrow> [Send_notification sub pl]) @
             (if gone (row_outcome env pl s) then [Delete_subscription (ps_endpoint s)] else []))
           ?subs))"
    by (simp only: sendPushToAll_enabled [OF assms(1,2,3)] filter_pruned_distinct [OF assms(4)])
  show ?thesis
    unfolding eq
    using len all_parsed_length [of env ?subs] keep
    by (simp add: sends_concat deletes_concat pr del: map_filter_simps)
qed

theorem dispatch_counts_and_prunes_witness:
  "canUsePushConfig scenario_config \<and> webpush_module scenario_push_env \<and>
   \<not> setVapidDetails_throws scenario_push_env (VAPID_SUBJECT scenario_config)
       (VAPID_PUBLIC_KEY scenario_config) (VAPID_PRIVATE_KEY scenario_config) \<and>
   distinct (map ps_endpoint (push_subscriptions scenario_push_db)) \<and>
   fst (sendPushToAll scenario_config scenario_push_env scenario_payload scenario_push_db) =
     Inr \<lparr>sent = 2, failed = 1, disabled = False, reason = None\<rparr> \<and>
   map ps_endpoint (push_subscriptions
      (fst (snd (sendPushToAll scenario_config scenario_push_env scenario_payload scenario_push_db)))) =
     [''https://push.example/a'', ''https://push.example/c'']"
  using dispatch_counts_and_prunes [of scenario_config scenario_push_env scenario_push_db scenario_payload]
  by (simp add: push_scenario_defs)

section \<open>The idea cooldown\<close>

text \<open>
  C4. The cooldown is a whole number of seconds (as the default 60), ideas have distinct
  ids (the primary key), and the submission reaches the cooldown check (its body passes
  validation and its honeypot is empty). When the most recent idea of the submitting
  device, the row of that device with the largest id, was created \<open>elapsed\<close> seconds ago
  and \<open>elapsed\<close> is less than the cooldown window, the submission is rejected with 429
  and \<open>retry_after_sec\<close> equal to the ceiling of \<open>cooldown - elapsed\<close>, which is positive,
  and nothing is written. When the device has no idea in the table, whatever other
  devices have submitted, or \<open>elapsed\<close> is at least the window, the submission is
  accepted and its row inserted. So of two submissions of one device less than the window
  apart, the first accepted, the second is rejected in this way. Clock readings are less
  than \<open>2 ^ 41\<close> milliseconds apart.
\<close>

theorem idea_cooldown:
  assumes "idea_validation req" and "js_trim (or_empty (req_hp req)) = []"
    and "IDEA_COOLDOWN_SEC cfg = of_int c" and "\<bar>c\<bar> \<le> 2 ^ 31"
    and "distinct (map idea_id (ideas db))"
  shows
    "(\<forall>l. most_recent_idea (ideas db) (req_deviceHash req) l \<and>
          \<bar>now - idea_created_at l\<bar> \<le> 2 ^ 41 \<and>
          of_int (now - idea_created_at l) / 1000 < (of_int c :: rat) \<longrightarrow>
          ideas_handler cfg sanitizeHtml now req db =
            (Response 429 (Error_retry Trop_de_requetes
               \<lceil>(of_int c :: rat) - of_int (now - idea_created_at l) / 1000\<rceil>), db) \<and>
          0 < \<lceil>(of_int c :: rat) - of_int (now - idea_created_at l) / 1000\<rceil>) \<and>
     (no_idea_yet (ideas db) (req_deviceHash req) \<or>
      (\<exists>l. most_recent_idea (ideas db) (req_deviceHash req) l \<and>
           \<bar>now - idea_created_at l\<bar> \<le> 2 ^ 41 \<and>
           (of_int c :: rat) \<le> of_int (now - idea_created_at l) / 1000) \<longrightarrow>
        ideas_handler cfg sanitizeHtml now req db =
          (Response 200 Ok_true,
           insert_idea (cleanText sanitizeHtml (or_empty (req_text req)) 500)
             (or_empty (req_category req)) (or_empty (req_urgency req))
             (req_deviceHash req) now db)) \<and>
     (\<forall>now2 req2.
        fst (ideas_handler cfg sanitizeHtml now req db) = Response 200 Ok_true \<and>
        idea_validation req2 \<and> js_trim (or_empty (req_hp req2)) = [] \<and>
        req_deviceHash req2 = req_deviceHash req \<and>
        \<bar>now2 - now\<bar> \<le> 2 ^ 41 \<and>
        of_int (now2 - now) / 1000 < (of_int c :: rat) \<longrightarrow>
        fst (ideas_handler cfg sanitizeHtml now2 req2
               (snd (ideas_handler cfg sanitizeHtml now req db))) =
          Response 429 (Error_retry Trop_de_requetes
             \<lceil>(of_int c :: rat) - of_int (now2 - now) / 1000\<rceil>) \<and>
        0 < \<lceil>(of_int c :: rat) - of_int (now2 - now) / 1000\<rceil>)"
proof -
  from assms(4) have "\<bar>c\<bar> < 2 ^ 53" by simp
  then have rc: "round_double (IDEA_COOLDOWN_SEC cfg) = of_int c"
    by (simp only: assms(3) round_double_int)
  show ?thesis
proof (intro conjI allI impI)
  fix l
  assume a: "most_recent_idea (ideas db) (req_deviceHash req) l \<and>
          \<bar>now - idea_created_at l\<bar> \<le> 2 ^ 41 \<and>
          of_int (now - idea_created_at l) / 1000 < (of_int c :: rat)"
  then have l: "last_idea (ideas db) (req_deviceHash req) = Some l"
    using most_recent_idea_lookup [OF assms(5)] by blast
  from a have b: "\<bar>now - idea_created_at l\<bar> \<le> 2 ^ 41"
    and lt: "of_int (now - idea_created_at l) / 1000 < (of_int c :: rat)"
    by blast+
  show "0 < \<lceil>(of_int c :: rat) - of_int (now - idea_created_at l) / 1000\<rceil>"
    by (rule cooldown_remaining_reject(2) [OF assms(4) b lt])
  show "ideas_handler cfg sanitizeHtml now req db =
            (Response 429 (Error_retry Trop_de_requetes
               \<lceil>(of_int c :: rat) - of_int (now - idea_created_at l) / 1000\<rceil>), db)"
    using assms(1,2)
    by (simp add: ideas_handler_def l rc cooldown_remaining_reject(1) [OF assms(4) b lt])
next
  assume "no_idea_yet (ideas db) (req_deviceHash req) \<or>
      (\<exists>l. most_recent_idea (ideas db) (req_deviceHash req) l \<and>
           \<bar>now - idea_created_at l\<bar> \<le> 2 ^ 41 \<and>
           (of_int c :: rat) \<le> of_int (now - idea_created_at l) / 1000)"
  then have "cooldown_remaining (of_int c) now
               (last_idea (ideas db) (req_deviceHash req)) = None"
  proof
    assume "no_idea_yet (ideas db) (req_deviceHash req)"
    then show ?thesis by (simp add: no_idea_yet_lookup cooldown_remaining_def)
  next
    assume "\<exists>l. most_recent_idea (ideas db) (req_deviceHash req) l \<and>
           \<bar>now - idea_created_at l\<bar> \<le> 2 ^ 41 \<and>
           (of_int c :: rat) \<le> of_int (now - idea_created_at l) / 1000"
    then obtain l where "most_recent_idea (ideas db) (req_deviceHash req) l"
      and b: "\<bar>now - idea_created_at l\<bar> \<le> 2 ^ 41"
      and ge: "(of_int c :: rat) \<le> of_int (now - idea_created_at l) / 1000"
      by blast
    then have "last_idea (ideas db) (req_deviceHash req) = Some l"
      using most_recent_idea_lookup [OF assms(5)] by blast
    then show ?thesis by (simp only: cooldown_remaining_allow [OF assms(4) b ge])
  qed
  with assms(1,2) show "ideas_handler cfg sanitizeHtml now req db =
          (Response 200 Ok_true,
           insert_idea (cleanText sanitizeHtml (or_empty (req_text req)) 500)
             (or_empty (req_category req)) (or_empty (req_urgency req))
             (req_deviceHash req) now db)"
    by (simp add: ideas_handler_def rc)
next
  fix now2 req2
  assume b: "fst (ideas_handler cfg sanitizeHtml now req db) = Response 200 Ok_true \<and>
        idea_validation req2 \<and> js_trim (or_empty (req_hp req2)) = [] \<and>
        req_deviceHash req2 = req_deviceHash req \<and>
        \<bar>now2 - now\<bar> \<le> 2 ^ 41 \<and>
        of_int (now2 - now) / 1000 < (of_int c :: rat)"
  let ?new = "\<lparr>idea_id = next_id (map idea_id (ideas db)),
               idea_text = cleanText sanitizeHtml (or_empty (req_text req)) 500,
               idea_category = or_empty (req_category req),
               idea_urgency = or_empty (req_urgency req), idea_status = ''nouveau'',
               idea_device_hash = req_deviceHash req, idea_created_at = now\<rparr>"
  from b assms(1,2) have db': "snd (ideas_handler cfg sanitizeHtml now req db) =
      insert_idea (cleanText sanitizeHtml (or_empty (req_text req)) 500)
             (or_empty (req_category req)) (or_empty (req_urgency req))
             (req_deviceHash req) now db"
    by (auto simp: ideas_handler_def split: option.splits)
  have l: "last_idea (ideas (snd (ideas_handler cfg sanitizeHtml now req db))) (req_deviceHash req2) =
           Some ?new"
    using b by (simp add: db' last_idea_after_insert)
  from b have bd: "\<bar>now2 - idea_created_at ?new\<bar> \<le> 2 ^ 41"
    and lt: "of_int (now2 - idea_created_at ?new) / 1000 < (of_int c :: rat)"
    by simp_all
  from cooldown_remaining_reject(2) [OF assms(4) bd lt]
  show "0 < \<lceil>(of_int c :: rat) - of_int (now2 - now) / 1000\<rceil>" by simp
  from cooldown_remaining_reject(1) [OF assms(4) bd lt]
  have "cooldown_remaining (of_int c) now2 (Some ?new) =
          Some \<lceil>(of_int c :: rat) - of_int (now2 - now) / 1000\<rceil>"
    by simp
  with b l show "fst (ideas_handler cfg sanitizeHtml now2 req2
               (snd (ideas_handler cfg sanitizeHtml now req db))) =
          Response 429 (Error_retry Trop_de_requetes
             \<lceil>(of_int c :: rat) - of_int (now2 - now) / 1000\<rceil>)"
    by (simp add: ideas_handler_def rc)
qed
qed

theorem idea_cooldown_witness:
  "idea_validation scenario_idea \<and> js_trim (or_empty (req_hp scenario_idea)) = [] \<and>
   IDEA_COOLDOWN_SEC scenario_config = of_int 60 \<and> \<bar>60 :: int\<bar> \<le> 2 ^ 31 \<and>
   distinct (map idea_id (ideas empty_database)) \<and>
   no_idea_yet (ideas empty_database) (req_deviceHash scenario_idea) \<and>
   fst (ideas_handler scenario_config id 10000 scenario_idea empty_database) = Response 200 Ok_true \<and>
   \<bar>25000 - 10000 :: int\<bar> \<le> 2 ^ 41 \<and>
   fst (ideas_handler scenario_config id 25000 scenario_idea
          (snd (ideas_handler scenario_config id 10000 scenario_idea empty_database))) =
     Response 429 (Error_retry Trop_de_requetes 45) \<and>
   fst (ideas_handler scenario_config id 25000 (scenario_idea\<lparr>req_deviceHash := ''d2''\<rparr>)
          (snd (ideas_handler scenario_config id 10000 scenario_idea empty_database))) =
     Response 200 Ok_true"
proof -
  note v = scenario_idea_valid
  have h: "js_trim (or_empty (req_hp scenario_idea)) = []"
    by (simp add: scenario_idea_def or_empty_def js_trim_def)
  have c: "IDEA_COOLDOWN_SEC scenario_config = of_int 60" by (simp add: scenario_config_def)
  have cb: "\<bar>60 :: int\<bar> \<le> 2 ^ 31" by simp
  have d: "distinct (map idea_id (ideas empty_database))" by (simp add: empty_database_def)
  have n: "no_idea_yet (ideas empty_database) (req_deviceHash scenario_idea)"
    by (simp add: no_idea_yet_def empty_database_def)
  note t = idea_cooldown [OF v h c cb d, of 10000 id]
  from t n have first: "ideas_handler scenario_config id 10000 scenario_idea empty_database =
      (Response 200 Ok_true,
       insert_idea (cleanText id (or_empty (req_text scenario_idea)) 500)
         (or_empty (req_category scenario_idea)) (or_empty (req_urgency scenario_idea))
         (req_deviceHash scenario_idea) 10000 empty_database)"
    by blast
  have b: "\<bar>25000 - 10000 :: int\<bar> \<le> 2 ^ 41" by simp
  from t have "fst (ideas_handler scenario_config id 10000 scenario_idea empty_database) = Response 200 Ok_true \<and>
        idea_validation scenario_idea \<and> js_trim (or_empty (req_hp scenario_idea)) = [] \<and>
        req_deviceHash scenario_idea = req_deviceHash scenario_idea \<and>
        \<bar>25000 - 10000 :: int\<bar> \<le> 2 ^ 41 \<and>
        of_int (25000 - 10000) / 1000 < (of_int 60 :: rat) \<longrightarrow>
        fst (ideas_handler scenario_config id 25000 scenario_idea
               (snd (ideas_handler scenario_config id 10000 scenario_idea empty_database))) =
          Response 429 (Error_retry Trop_de_requetes
             \<lceil>(of_int 60 :: rat) - of_int (25000 - 10000) / 1000\<rceil>)"
    by blast
  with first v h
  have second: "fst (ideas_handler scenario_config id 25000 scenario_idea
               (snd (ideas_handler scenario_config id 10000 scenario_idea empty_database))) =
          Response 429 (Error_retry Trop_de_requetes 45)"
    by simp
  let ?db1 = "snd (ideas_handler scenario_config id 10000 scenario_idea empty_database)"
  have v2: "idea_validation (scenario_idea\<lparr>req_deviceHash := ''d2''\<rparr>)"
    using v by (simp add: idea_validation_def)
  have h2: "js_trim (or_empty (req_hp (scenario_idea\<lparr>req_deviceHash := ''d2''\<rparr>))) = []"
    using h by simp
  have d1: "distinct (map idea_id (ideas ?db1))"
    by (simp only: first snd_conv) (simp add: insert_idea_def empty_database_def)
  have n2: "no_idea_yet (ideas ?db1) (req_deviceHash (scenario_idea\<lparr>req_deviceHash := ''d2''\<rparr>))"
    by (simp only: first snd_conv)
       (simp add: insert_idea_def empty_database_def no_idea_yet_def scenario_idea_def)
  from idea_cooldown [OF v2 h2 c cb d1, of 25000 id] n2
  have other: "fst (ideas_handler scenario_config id 25000 (scenario_idea\<lparr>req_deviceHash := ''d2''\<rparr>)
          ?db1) = Response 200 Ok_true"
    by simp
  from v h c cb d n first b second other show ?thesis by simp
qed

section \<open>Push not configured\<close>

text \<open>
  C5. When a VAPID key is missing or the web-push module cannot be loaded, a dispatch
  returns the disabled result, with zero counts and the reason, without any effect: no
  delivery, no read of the subscription table, and the database as it was. The route
  POST /api/push/send answers it with 501 and never with 200.
\<close>

theorem dispatch_disabled:
  assumes "\<not> canUsePushConfig cfg \<or> \<not> webpush_module env"
  shows "fst (snd (sendPushToAll cfg env pl db)) = db \<and>
         snd (snd (sendPushToAll cfg env pl db)) = [] \<and>
         fst (sendPushToAll cfg env pl db) =
           Inr \<lparr>sent = 0, failed = 0, disabled = True,
                reason = Some (if \<not> canUsePushConfig cfg then missing_vapid
                               else missing_webpush_module)\<rparr> \<and>
         (\<exists>r. fst (push_send_handler cfg env sanitizeHtml now token req db) = Inr r \<and>
              status r \<noteq> 200) \<and>
         snd (push_send_handler cfg env sanitizeHtml now token req db) = (db, []) \<and>
         (requireAdmin token = None \<and> push_send_validation req \<longrightarrow>
            fst (push_send_handler cfg env sanitizeHtml now token req db) =
              Inr (Response 501 (Error Push_non_configure)))"
proof -
  have d: "sendPushToAll cfg env p db =
        (Inr \<lparr>sent = 0, failed = 0, disabled = True,
              reason = Some (if \<not> canUsePushConfig cfg then missing_vapid
                             else missing_webpush_module)\<rparr>,
         db, [])" for p
    using assms by (auto simp: sendPushToAll_def initWebPushIfConfigured_def)
  have r: "status (the (requireAdmin token)) \<noteq> 200" if "requireAdmin token \<noteq> None"
    using that by (auto simp: requireAdmin_def split: option.splits jwt_verify.splits if_splits)
  show ?thesis
    using r by (auto simp: d push_send_handler_def Let_def split: option.splits)
qed

theorem dispatch_disabled_witness:
  "\<not> canUsePushConfig scenario_config_no_vapid \<and>
   sendPushToAll scenario_config_no_vapid scenario_push_env scenario_payload scenario_push_db =
     (Inr \<lparr>sent = 0, failed = 0, disabled = True, reason = Some missing_vapid\<rparr>,
      scenario_push_db, []) \<and>
   push_send_handler scenario_config_no_vapid scenario_push_env id 7000 (Some (Payload True))
       scenario_push_request scenario_push_db =
     (Inr (Response 501 (Error Push_non_configure)), scenario_push_db, [])"
proof -
  have h: "\<not> canUsePushConfig scenario_config_no_vapid"
    by (simp add: push_scenario_defs)
  have v: "push_send_validation scenario_push_request"
    by (simp add: push_send_validation_def scenario_push_request_def isString_isLength_def
          optional_isString_isLength_def)
  from dispatch_disabled [of scenario_config_no_vapid scenario_push_env scenario_payload scenario_push_db
      id 7000 "Some (Payload True)" scenario_push_request] h admin_token_passes v
  show ?thesis
    by (simp add: prod_eq_iff)
qed

section \<open>Validating the option of a vote\<close>

text \<open>
  C6. For every vote request on an existing active poll, an option index that is not a
  number, not an integer, negative, or greater than or equal to the number of options of
  the poll is rejected with 400, and the database is unchanged: no poll_votes row is
  written.
\<close>

theorem vote_bad_option_rejected:
  assumes "get_poll (polls db) (vote_params_id req) = Some p" and "poll_active p"
    and "case vote_optionIndex req of None \<Rightarrow> True
         | Some r \<Rightarrow> r < 0 \<or> \<not> is_integer r \<or> r \<ge> of_nat (length (poll_options p))"
  shows "status (fst (vote_handler fault now req db)) = 400 \<and>
         snd (vote_handler fault now req db) = db"
  using assms by (auto simp: vote_handler_def isInt_def split: option.splits)

theorem vote_bad_option_rejected_witness:
  "get_poll (polls first_poll_db) (vote_params_id bad_option_vote) =
     Some \<lparr>poll_id = 1, poll_question = ''Cantine ?'', poll_options = [''oui'', ''non''],
           poll_active = True, poll_created_at = 1000\<rparr> \<and>
   vote_optionIndex bad_option_vote = Some 2 \<and>
   vote_handler False 2000 bad_option_vote first_poll_db =
     (Response 400 (Error Option_invalide), first_poll_db)"
proof -
  have g: "get_poll (polls first_poll_db) (vote_params_id bad_option_vote) =
     Some \<lparr>poll_id = 1, poll_question = ''Cantine ?'', poll_options = [''oui'', ''non''],
           poll_active = True, poll_created_at = 1000\<rparr>"
    by (simp add: vote_scenario_defs)
  have i: "vote_optionIndex bad_option_vote = Some 2" by (simp add: bad_option_vote_def)
  have b: "fst (vote_handler False 2000 bad_option_vote first_poll_db) =
             Response 400 (Error Option_invalide)"
    by (simp add: vote_scenario_defs)
  from vote_bad_option_rejected [OF g, of False 2000] i b g show ?thesis
    by (simp add: prod_eq_iff)
qed

section \<open>Login\<close>

text \<open>
  C7 (amended). For every password that does not match the stored admin password
  hash, login never sets the session cookie and never answers 200. It rejects with 401
  when the password has between 6 and 128 characters and a hash is configured; a shorter
  or longer password is rejected with 400 by the validation that runs before the
  comparison. The cookie, holding the signed admin token, is set only after a successful
  comparison, together with the answer 200.
\<close>

theorem login_mismatch_rejected:
  assumes "\<not> bcrypt_compare pw (ADMIN_PASSWORD_HASH cfg)"
  shows "snd (login_handler cfg bcrypt_compare (Str pw)) = None \<and>
         status (fst (login_handler cfg bcrypt_compare (Str pw))) \<noteq> 200 \<and>
         (6 \<le> length pw \<and> length pw \<le> 128 \<and> ADMIN_PASSWORD_HASH cfg \<noteq> [] \<longrightarrow>
            fst (login_handler cfg bcrypt_compare (Str pw)) = Response 401 (Error Identifiants_invalides)) \<and>
         (length pw < 6 \<or> 128 < length pw \<longrightarrow>
            fst (login_handler cfg bcrypt_compare (Str pw)) = Response 400 (Error Validation_errors)) \<and>
         (\<forall>field c. snd (login_handler cfg bcrypt_compare field) = Some c \<longrightarrow>
            (\<exists>p. field = Str p \<and> bcrypt_compare p (ADMIN_PASSWORD_HASH cfg)) \<and>
            c = setAuthCookie cfg signAdminToken \<and>
            fst (login_handler cfg bcrypt_compare field) = Response 200 Ok_true)"
  using assms
  by (auto simp: login_handler_def isString_isLength_def or_empty_def
           split: str_field.splits if_splits)

theorem login_mismatch_rejected_witness:
  "\<not> scenario_compare ''mauvais'' (ADMIN_PASSWORD_HASH scenario_config) \<and>
   login_handler scenario_config scenario_compare (Str ''mauvais'') =
     (Response 401 (Error Identifiants_invalides), None)"
proof -
  have m: "\<not> scenario_compare ''mauvais'' (ADMIN_PASSWORD_HASH scenario_config)"
    by (simp add: scenario_compare_def scenario_config_def)
  from login_mismatch_rejected [of scenario_compare "''mauvais''" scenario_config] m
  show ?thesis
    by (simp add: prod_eq_iff scenario_config_def)
qed

text \<open>
  The claim as written fails on the password \<open>wrong\<close> against the hash of \<open>right\<close>: it
  has five characters, and the handler answers 400 before it compares anything.
\<close>

theorem login_short_password_counterexample:
  "\<not> scenario_compare ''wrong'' (ADMIN_PASSWORD_HASH scenario_config) \<and>
   scenario_compare ''right'' (ADMIN_PASSWORD_HASH scenario_config) \<and>
   fst (login_handler scenario_config scenario_compare (Str ''wrong'')) =
     Response 400 (Error Validation_errors) \<and>
   status (fst (login_handler scenario_config scenario_compare (Str ''wrong''))) \<noteq> 401"
  by (simp add: scenario_compare_def scenario_config_def login_handler_def isString_isLength_def)

section \<open>Votes on a poll that is not active\<close>

text \<open>
  C9. For every vote request whose poll id refers to a poll that exists with active = 0,
  no poll_votes row is written, the answer is 404 for every request whose body passes
  validation, and the answer is in every case the one given when the poll is absent. The
  insert alone would accept the vote of a device that has not voted on that poll.
\<close>

theorem vote_inactive_poll_not_found:
  assumes "get_poll (polls db) (vote_params_id req) = Some p" and "\<not> poll_active p"
  shows "snd (vote_handler fault now req db) = db \<and>
         (isInt 0 50 (vote_optionIndex req) \<longrightarrow>
            fst (vote_handler fault now req db) = Response 404 (Error Sondage_introuvable)) \<and>
         fst (vote_handler fault now req db) =
           fst (vote_handler fault now req
                  (db\<lparr>polls := filter (\<lambda>q. poll_id q \<noteq> poll_id p) (polls db)\<rparr>)) \<and>
         (\<not> has_voted (poll_votes db) (poll_id p) (vote_deviceHash req) \<longrightarrow>
            (\<exists>db'. insert_poll_vote False db (poll_id p) i (vote_deviceHash req) now = Inr db'))"
proof -
  from assms(1) have id: "vote_params_id req = Some (poll_id p)" and mem: "p \<in> set (polls db)"
    using get_poll_Some_id by blast+
  have absent: "get_poll (filter (\<lambda>q. poll_id q \<noteq> poll_id p) (polls db)) (vote_params_id req) = None"
    by (simp add: id get_poll_removed)
  have 1: "snd (vote_handler fault now req db) = db"
    using assms by (simp add: vote_handler_def)
  have 2: "isInt 0 50 (vote_optionIndex req) \<longrightarrow>
            fst (vote_handler fault now req db) = Response 404 (Error Sondage_introuvable)"
    using assms by (simp add: vote_handler_def)
  have 3: "fst (vote_handler fault now req db) =
           fst (vote_handler fault now req
                  (db\<lparr>polls := filter (\<lambda>q. poll_id q \<noteq> poll_id p) (polls db)\<rparr>))"
    using assms absent by (simp add: vote_handler_def)
  have 4: "\<not> has_voted (poll_votes db) (poll_id p) (vote_deviceHash req) \<longrightarrow>
            (\<exists>db'. insert_poll_vote False db (poll_id p) i (vote_deviceHash req) now = Inr db')"
    using mem by (auto simp: insert_poll_vote_def list_ex_iff)
  from 1 2 3 4 show ?thesis by blast
qed

theorem vote_inactive_poll_not_found_witness:
  "get_poll (polls second_poll_db) (vote_params_id bad_option_vote) =
     Some \<lparr>poll_id = 1, poll_question = ''Cantine ?'', poll_options = [''oui'', ''non''],
           poll_active = False, poll_created_at = 1000\<rparr> \<and>
   isInt 0 50 (vote_optionIndex bad_option_vote) \<and>
   vote_handler False 4000 bad_option_vote second_poll_db =
     (Response 404 (Error Sondage_introuvable), second_poll_db)"
proof -
  have g: "get_poll (polls second_poll_db) (vote_params_id bad_option_vote) =
     Some \<lparr>poll_id = 1, poll_question = ''Cantine ?'', poll_options = [''oui'', ''non''],
           poll_active = False, poll_created_at = 1000\<rparr>"
    by (simp add: vote_scenario_defs)
  have v: "isInt 0 50 (vote_optionIndex bad_option_vote)"
    by (simp add: bad_option_vote_def isInt_def is_integer_def)
  from vote_inactive_poll_not_found [OF g, of False 4000 0] v g show ?thesis
    by (simp add: prod_eq_iff)
qed

section \<open>The honeypot field\<close>

text \<open>
  C10. For every idea submission whose field \<open>hp\<close> is a string that is not empty after
  trimming, the request is rejected with 400 and the database is unchanged: no idea row
  is written, so the device's cooldown is as before. This holds also when text, category
  and urgency are valid; the answer is then the honeypot's own.
\<close>

theorem honeypot_rejected:
  assumes "req_hp req = Str s" and "js_trim s \<noteq> []"
  shows "status (fst (ideas_handler cfg sanitizeHtml now req db)) = 400 \<and>
         snd (ideas_handler cfg sanitizeHtml now req db) = db \<and>
         (idea_validation req \<longrightarrow>
            fst (ideas_handler cfg sanitizeHtml now req db) = Response 400 (Error Requete_invalide))"
  using assms by (simp add: ideas_handler_def or_empty_def)

theorem honeypot_rejected_witness:
  "js_trim '' bot '' \<noteq> [] \<and> idea_validation (scenario_idea\<lparr>req_hp := Str '' bot ''\<rparr>) \<and>
   ideas_handler scenario_config id 10000 (scenario_idea\<lparr>req_hp := Str '' bot ''\<rparr>) empty_database =
     (Response 400 (Error Requete_invalide), empty_database)"
proof -
  have t: "js_trim '' bot '' \<noteq> []" by (simp add: js_trim_def js_space_def)
  have v: "idea_validation (scenario_idea\<lparr>req_hp := Str '' bot ''\<rparr>)"
    by (simp add: idea_validation_def scenario_idea_def isString_isLength_def isIn_def
          optional_isString_isLength_def)
  from honeypot_rejected [of "scenario_idea\<lparr>req_hp := Str '' bot ''\<rparr>" "'' bot ''"
      scenario_config id 10000 empty_database] t v
  show ?thesis by (simp add: prod_eq_iff)
qed

end
